theory Spec2Isabelle
  imports Complex_Main "HOL-Library.Product_Lexorder"
begin

section \<open>Data model of seismic\_plotter.py\<close>

text \<open>
  A \<open>UTCDateTime\<close> is a real number of seconds, so that a clock reading may fall anywhere
  between two samples, and a sampling rate is a whole number of samples per second. Sample
  \<open>k\<close> of a trace is taken at \<open>starttime + k / sampling_rate\<close>. Sample values are real
  numbers (the program holds float64 arrays).
\<close>

type_synonym utc = real

datatype exn = KeyError string | ValueError string | OtherError string

record trace =
  network :: string
  station :: string
  location :: string
  channel :: string
  sampling_rate :: nat
  starttime :: utc
  data :: "real list"

text \<open>The entries of \<open>current_values\<close>: vel, desp, acel, last\_update.\<close>

record metric_values =
  vel :: real
  desp :: real
  acel :: real
  last_update :: "utc option"

type_synonym station_tuple = "string \<times> string \<times> string \<times> string"

record 'inv plotter =
  stations :: "station_tuple list"
  stationxml_paths :: "string \<rightharpoonup> string"
  seedlink_host :: string
  window_seconds :: real
  refresh_rate_ms :: int
  data_timeout :: real
  streams :: "string \<rightharpoonup> trace list"
  last_data_times :: "string \<rightharpoonup> utc option"
  connection_status :: "string \<rightharpoonup> bool"
  current_values :: "string \<rightharpoonup> metric_values"
  inventories :: "string \<rightharpoonup> 'inv"

text \<open>
  What the program takes from outside: the file system and \<open>read_inventory\<close>
  (\<open>load_inventories\<close>), and the two numerical ObsPy routines \<open>Trace.detrend\<close> and
  \<open>Trace.remove_response\<close>, which are kept abstract: any of them may raise.
\<close>

record 'inv env =
  path_exists :: "string \<Rightarrow> bool"
  read_inventory :: "string \<Rightarrow> exn + 'inv"
  detrend :: "string \<Rightarrow> trace \<Rightarrow> exn + trace"
  remove_response :: "'inv \<Rightarrow> trace \<Rightarrow> exn + trace"

text \<open>The key \<open>f"{net}.{sta}.{loc}.{cha}"\<close> of \<open>self.streams\<close>.\<close>

definition stream_key :: "string \<Rightarrow> string \<Rightarrow> string \<Rightarrow> string \<Rightarrow> string" where
  "stream_key net sta loc cha = net @ ''.'' @ sta @ ''.'' @ loc @ ''.'' @ cha"

definition trace_key :: "trace \<Rightarrow> string" where
  "trace_key tr = stream_key (network tr) (station tr) (location tr) (channel tr)"

text \<open>\<open>current_values\<close> is a \<open>defaultdict\<close>: a missing key reads as the default entry.\<close>

definition default_values :: metric_values where
  "default_values = \<lparr>vel = 0, desp = 0, acel = 0, last_update = None\<rparr>"

definition cv_lookup :: "(string \<rightharpoonup> metric_values) \<Rightarrow> string \<Rightarrow> metric_values" where
  "cv_lookup m sta = (case m sta of None \<Rightarrow> default_values | Some v \<Rightarrow> v)"

section \<open>Construction: \<open>__init__\<close>, \<open>load_inventories\<close>, \<open>start\<close>\<close>

text \<open>The table that \<open>__init__\<close> assigns to \<open>self.stationxml_paths\<close> (lines 38-44).\<close>

definition hardcoded_paths :: "string \<rightharpoonup> string" where
  "hardcoded_paths = map_of
     [(''UIS09'', ''/net/sw/source/inventories/UIS09.xml''),
      (''UIS05'', ''/net/sw/source/inventories/UIS05.xml''),
      (''UIS03'', ''/net/sw/source/inventories/UIS03.xml''),
      (''UIS01'', ''/net/sw/source/inventories/UIS01.xml''),
      (''R8256'', ''/net/sw/source/inventories/R8256.xml'')]"

definition station_code :: "station_tuple \<Rightarrow> string" where
  "station_code s = (case s of (net, sta, loc, cha) \<Rightarrow> sta)"

text \<open>
  One round of the loop of \<open>load_inventories\<close> (lines 139-146): a missing path, a
  missing file and a failing \<open>read_inventory\<close> are printed and leave no entry.
\<close>

definition load_one :: "'inv env \<Rightarrow> (string \<rightharpoonup> string) \<Rightarrow> string \<Rightarrow> (string \<rightharpoonup> 'inv) \<Rightarrow> (string \<rightharpoonup> 'inv)" where
  "load_one E paths sta invs =
     (case paths sta of
        None \<Rightarrow> invs
      | Some path \<Rightarrow>
          if path \<noteq> [] \<and> path_exists E path
          then (case read_inventory E path of Inl e \<Rightarrow> invs | Inr i \<Rightarrow> invs(sta \<mapsto> i))
          else invs)"

definition load_inventories :: "'inv env \<Rightarrow> (string \<rightharpoonup> string) \<Rightarrow> station_tuple list \<Rightarrow> (string \<rightharpoonup> 'inv)" where
  "load_inventories E paths sts = fold (load_one E paths) (remdups (map station_code sts)) Map.empty"

text \<open>
  \<open>__init__\<close> (lines 24-66). The argument \<open>stationxml_paths_arg\<close> is the constructor's
  parameter \<open>stationxml_paths\<close>; the body never reads it.
\<close>

definition plotter_init ::
  "'inv env \<Rightarrow> station_tuple list \<Rightarrow> (string \<rightharpoonup> string) \<Rightarrow> string \<Rightarrow> real \<Rightarrow> int \<Rightarrow> real \<Rightarrow> 'inv plotter" where
  "plotter_init E sts stationxml_paths_arg host window refresh timeout =
     \<lparr>stations = sts,
      stationxml_paths = hardcoded_paths,
      seedlink_host = host,
      window_seconds = window,
      refresh_rate_ms = refresh,
      data_timeout = timeout,
      streams = map_of (map (\<lambda>(net, sta, loc, cha). (stream_key net sta loc cha, [])) sts),
      last_data_times = map_of (map (\<lambda>(net, sta, loc, cha). (sta, None)) sts),
      connection_status = map_of (map (\<lambda>(net, sta, loc, cha). (sta, False)) sts),
      current_values = Map.empty,
      inventories = load_inventories E hardcoded_paths sts\<rparr>"

text \<open>
  \<open>start\<close> (lines 212-234): with no station it prints an error and returns (\<open>None\<close>);
  otherwise it calls \<open>select_stream(net, sta, cha)\<close> for every configured tuple and
  starts the client thread. The result lists the selected streams.
\<close>

definition start :: "'inv plotter \<Rightarrow> (string \<times> string \<times> string) list option" where
  "start p =
     (if stations p = [] then None
      else Some (map (\<lambda>(net, sta, loc, cha). (net, sta, cha)) (stations p)))"

section \<open>The ObsPy container routines that \<open>on_data\<close> calls\<close>

text \<open>
  \<open>Stream.merge\<close>, \<open>Stream.trim\<close>, \<open>Trace.trim\<close>, \<open>Trace.slice\<close>, \<open>Trace.integrate\<close>
  and \<open>Trace.differentiate\<close> belong to the ObsPy library, not to this repository. They are
  written here as the library documents them, for the arguments that \<open>on_data\<close> passes.
\<close>

definition npts :: "trace \<Rightarrow> nat" where
  "npts tr = length (data tr)"

text \<open>\<open>stats.delta\<close>, the sample interval in seconds (0 for a sampling rate of 0).\<close>

definition delta_t :: "trace \<Rightarrow> real" where
  "delta_t tr = 1 / real (sampling_rate tr)"

text \<open>\<open>stats.endtime\<close>, the time of the last sample (the start time of an empty trace).\<close>

definition endtime :: "trace \<Rightarrow> utc" where
  "endtime tr = starttime tr + (if npts tr = 0 then 0 else real (npts tr - 1) * delta_t tr)"

text \<open>
  \<open>compatibility.round_away\<close>: the nearest whole number, a value halfway between two whole
  numbers going to the one further from zero.
\<close>

definition round_away :: "real \<Rightarrow> int" where
  "round_away x = (if 0 \<le> x then \<lfloor>x + 1 / 2\<rfloor> else \<lceil>x - 1 / 2\<rceil>)"

text \<open>
  The number of the sample of \<open>tr\<close> that is nearest to the time \<open>t\<close>, counted from the
  first one: \<open>round_away((t - starttime) * sampling_rate)\<close>.
\<close>

definition offset :: "trace \<Rightarrow> utc \<Rightarrow> int" where
  "offset tr t = round_away ((t - starttime tr) * real (sampling_rate tr))"

text \<open>
  \<open>Trace._ltrim(t, pad, nearest_sample=True, fill_value=0)\<close>: cut, or pad with zeros, on
  the left. The time \<open>t\<close> is rounded to the nearest sample; when padding to the left the
  rounding is taken from a start time moved \<open>|d| + 10\<close> samples back, so that a halfway
  time goes to the later sample. The start time moves by whole sample intervals.
\<close>

definition ltrim :: "bool \<Rightarrow> utc \<Rightarrow> trace \<Rightarrow> trace" where
  "ltrim pad t tr =
     (let d0 = offset tr t;
          n = \<bar>d0\<bar> + 10;
          d = (if d0 < 0 \<and> pad
               then round_away ((t - (starttime tr - real_of_int n / real (sampling_rate tr)))
                                * real (sampling_rate tr)) - n
               else d0);
          s = (if 0 < d \<or> pad then starttime tr + real_of_int d * delta_t tr else starttime tr)
      in if d = 0 \<or> (d < 0 \<and> \<not> pad) then tr
         else if d < 0 then tr\<lparr>starttime := s, data := replicate (nat (- d)) 0 @ data tr\<rparr>
         else tr\<lparr>starttime := s, data := drop (nat d) (data tr)\<rparr>)"

text \<open>
  \<open>Trace._rtrim(t, pad, nearest_sample=True, fill_value=0)\<close>: cut, or pad with zeros, on
  the right, at the sample nearest to \<open>t\<close>. A trace that starts after \<open>t\<close> is emptied and
  its start moved by \<open>d\<close> sample intervals from its end; a cut at the start time itself
  leaves one sample.
\<close>

definition rtrim :: "bool \<Rightarrow> utc \<Rightarrow> trace \<Rightarrow> trace" where
  "rtrim pad t tr =
     (let d = offset tr t - int (npts tr) + 1 in
      if d = 0 \<or> (d > 0 \<and> \<not> pad) then tr
      else if d > 0 then tr\<lparr>data := data tr @ replicate (nat d) 0\<rparr>
      else if t < starttime tr
        then tr\<lparr>starttime := endtime tr + real_of_int d * delta_t tr, data := []\<rparr>
      else tr\<lparr>data := take (if t = starttime tr then 1 else nat (int (npts tr) + d)) (data tr)\<rparr>)"

text \<open>\<open>Trace.trim(lo, hi, pad, fill_value=0)\<close>; it raises when \<open>lo > hi\<close>.\<close>

definition trace_trim :: "bool \<Rightarrow> utc \<Rightarrow> utc \<Rightarrow> trace \<Rightarrow> exn + trace" where
  "trace_trim pad lo hi tr =
     (if lo > hi then Inl (ValueError ''startime is larger than endtime'')
      else Inr (rtrim pad hi (ltrim pad lo tr)))"

text \<open>\<open>Trace.slice(lo, hi)\<close>: a copy, trimmed to the nearest samples without padding.\<close>

definition slice :: "utc \<Rightarrow> utc \<Rightarrow> trace \<Rightarrow> exn + trace" where
  "slice lo hi tr = trace_trim False lo hi tr"

text \<open>
  \<open>Stream.trim(lo, hi, pad=True, nearest_sample=True, fill_value=0)\<close>: nothing on an empty
  stream. Otherwise the two times are first moved to sample points of the first trace: the
  start by \<open>round_away((lo - starttime) * sampling_rate)\<close> sample intervals from its start
  time, the end by \<open>round_away((hi - endtime) * sampling_rate)\<close> sample intervals from its
  end time. Then every trace is trimmed to the moved times (\<open>Trace.trim\<close> raises when the
  start lies after the end), and the traces left without samples are dropped.
\<close>

definition snap_window :: "utc \<Rightarrow> utc \<Rightarrow> trace \<Rightarrow> utc \<times> utc" where
  "snap_window lo hi tr =
     (starttime tr
        + real_of_int (round_away ((lo - starttime tr) * real (sampling_rate tr))) * delta_t tr,
      endtime tr
        + real_of_int (round_away ((hi - endtime tr) * real (sampling_rate tr))) * delta_t tr)"

text \<open>What \<open>Stream.trim\<close> makes of the trace \<open>tr\<close> of the stream \<open>trs\<close>.\<close>

definition trim_in_stream :: "utc \<Rightarrow> utc \<Rightarrow> trace list \<Rightarrow> trace \<Rightarrow> trace" where
  "trim_in_stream lo hi trs tr =
     (case snap_window lo hi (hd trs) of (lo', hi') \<Rightarrow> rtrim True hi' (ltrim True lo' tr))"

definition stream_trim :: "utc \<Rightarrow> utc \<Rightarrow> trace list \<Rightarrow> exn + trace list" where
  "stream_trim lo hi trs =
     (if trs = [] then Inr []
      else if fst (snap_window lo hi (hd trs)) > snd (snap_window lo hi (hd trs))
        then Inl (ValueError ''startime is larger than endtime'')
      else Inr (filter (\<lambda>tr. data tr \<noteq> []) (map (trim_in_stream lo hi trs) trs)))"

text \<open>\<open>numpy.linspace(ls, rs, n + 2)[1:-1]\<close>: the \<open>n\<close> inner points between \<open>ls\<close> and \<open>rs\<close>.\<close>

definition interpolate :: "real \<Rightarrow> real \<Rightarrow> nat \<Rightarrow> real list" where
  "interpolate ls rs n = map (\<lambda>j. ls + real j * (rs - ls) / real (n + 1)) [1..<n + 1]"

text \<open>
  \<open>Trace.__add__(method=1, fill_value='interpolate', interpolation_samples=0)\<close> on two
  traces that hold samples: \<open>lt\<close> is the one that starts first, and
  \<open>delta = round_away((rt.starttime - lt.endtime) * sampling_rate) - 1\<close> is the number of
  samples missing between the two. An overlap (\<open>delta < 0\<close>, the right trace ending later)
  keeps the left trace without its last \<open>|delta|\<close> samples and then the right trace; a
  right trace that ends inside the left one is discarded; a gap of \<open>delta\<close> samples is
  filled by linear interpolation between the two bordering samples.
\<close>

definition trace_add :: "trace \<Rightarrow> trace \<Rightarrow> trace" where
  "trace_add a b =
     (let lt = (if starttime a \<le> starttime b then a else b);
          rt = (if starttime a \<le> starttime b then b else a);
          delta = round_away ((starttime rt - endtime lt) * real (sampling_rate a)) - 1
      in if delta < 0 \<and> endtime lt < endtime rt
           then lt\<lparr>data := take (nat (int (npts lt) + delta)) (data lt) @ data rt\<rparr>
         else if delta < 0 then lt
         else if delta = 0 then lt\<lparr>data := data lt @ data rt\<rparr>
         else lt\<lparr>data := data lt @ interpolate (last (data lt)) (hd (data rt)) (nat delta) @ data rt\<rparr>)"

text \<open>
  \<open>Stream.merge(method=1, fill_value='interpolate')\<close> on the traces of one buffer (they
  share one id): empty traces are skipped, differing sampling rates raise, the rest is
  sorted by start and end time and added up from the left.
\<close>

definition rate_mismatch :: exn where
  "rate_mismatch = OtherError ''Can't merge traces with same ids but differing sampling rates!''"

definition stream_merge :: "trace list \<Rightarrow> exn + trace list" where
  "stream_merge trs =
     (let full = filter (\<lambda>tr. data tr \<noteq> []) trs in
      if list_ex (\<lambda>tr. sampling_rate tr \<noteq> sampling_rate (hd full)) full
        then Inl rate_mismatch
      else (case sort_key (\<lambda>tr. (starttime tr, endtime tr)) full of
              [] \<Rightarrow> Inr []
            | c # rest \<Rightarrow> Inr [foldl trace_add c rest]))"

text \<open>
  A stream that holds a single trace with samples keeps that very object; a merge of
  several traces builds a new one.
\<close>

definition merge_keeps_object :: "trace list \<Rightarrow> bool" where
  "merge_keeps_object trs = (length (filter (\<lambda>tr. data tr \<noteq> []) trs) = 1)"

text \<open>\<open>scipy.integrate.cumtrapz(x, dx=dx, initial=0)\<close>, the default of \<open>Trace.integrate\<close>.\<close>

fun cumtrapz_from :: "real \<Rightarrow> real \<Rightarrow> real list \<Rightarrow> real list" where
  "cumtrapz_from dx acc (x # y # xs) = (acc + dx * (x + y) / 2) # cumtrapz_from dx (acc + dx * (x + y) / 2) (y # xs)"
| "cumtrapz_from dx acc [x] = []"
| "cumtrapz_from dx acc [] = []"

definition cumtrapz :: "real \<Rightarrow> real list \<Rightarrow> real list" where
  "cumtrapz dx xs = (if xs = [] then [] else 0 # cumtrapz_from dx 0 xs)"

text \<open>
  \<open>numpy.gradient(x, dx)\<close>, the default of \<open>Trace.differentiate\<close>: central differences
  inside, one-sided differences at both ends; it raises on fewer than two samples.
\<close>

fun central :: "real \<Rightarrow> real list \<Rightarrow> real list" where
  "central dx (x # y # z # xs) = (z - x) / (2 * dx) # central dx (y # z # xs)"
| "central dx [x, y] = []"
| "central dx [x] = []"
| "central dx [] = []"

definition gradient :: "real \<Rightarrow> real list \<Rightarrow> exn + real list" where
  "gradient dx xs =
     (if length xs < 2 then Inl (ValueError ''Shape of array too small to calculate a numerical gradient'')
      else Inr ([(xs ! 1 - xs ! 0) / dx] @ central dx xs @ [(last xs - last (butlast xs)) / dx]))"

text \<open>\<open>np.abs(x).max()\<close>, which raises on an empty array.\<close>

definition abs_max :: "real list \<Rightarrow> exn + real" where
  "abs_max xs =
     (case xs of
        [] \<Rightarrow> Inl (ValueError ''zero-size array to reduction operation maximum which has no identity'')
      | x # ys \<Rightarrow> Inr (fold (\<lambda>y m. max m \<bar>y\<bar>) ys \<bar>x\<bar>))"

section \<open>Ingestion: \<open>SeismicClient.on_data\<close>\<close>

text \<open>
  The body of the \<open>try\<close> block is a sequence of statements; the first one that raises
  ends it, and what was written before stays written. A stage returns the exception it
  raised, if any, and the state it leaves.
\<close>

fun try_block :: "('s \<Rightarrow> exn option \<times> 's) list \<Rightarrow> 's \<Rightarrow> exn option \<times> 's" where
  "try_block [] s = (None, s)"
| "try_block (f # fs) s =
     (case f s of
        (None, s') \<Rightarrow> try_block fs s'
      | (Some e, s') \<Rightarrow> (Some e, s'))"

text \<open>
  The local state of one call: the plotter, the incoming \<open>Trace\<close> object (every ObsPy
  routine called on it changes it in place), and whether the buffer's only trace is that
  same object, so that a change of the one is a change of the other.
\<close>

record 'inv frame =
  fr_plotter :: "'inv plotter"
  fr_trace :: trace
  fr_shared :: bool

definition store_buffer :: "string \<Rightarrow> trace list \<Rightarrow> 'inv plotter \<Rightarrow> 'inv plotter" where
  "store_buffer key trs p = p\<lparr>streams := (streams p)(key \<mapsto> trs)\<rparr>"

definition sync_buffer :: "string \<Rightarrow> 'inv frame \<Rightarrow> 'inv frame" where
  "sync_buffer key fr =
     (if fr_shared fr then fr\<lparr>fr_plotter := store_buffer key [fr_trace fr] (fr_plotter fr)\<rparr> else fr)"

text \<open>Lines 334-335: the liveness touch.\<close>

definition touch :: "string \<Rightarrow> utc \<Rightarrow> 'inv plotter \<Rightarrow> 'inv plotter" where
  "touch sta now p =
     p\<lparr>last_data_times := (last_data_times p)(sta \<mapsto> Some now),
       connection_status := (connection_status p)(sta \<mapsto> True)\<rparr>"

definition touch_stage :: "string \<Rightarrow> utc \<Rightarrow> 'inv frame \<Rightarrow> exn option \<times> 'inv frame" where
  "touch_stage sta now fr = (None, fr\<lparr>fr_plotter := touch sta now (fr_plotter fr)\<rparr>)"

text \<open>Lines 338-339: \<open>trace.detrend(kind)\<close>.\<close>

definition detrend_stage :: "'inv env \<Rightarrow> string \<Rightarrow> 'inv frame \<Rightarrow> exn option \<times> 'inv frame" where
  "detrend_stage E kind fr =
     (case detrend E kind (fr_trace fr) of
        Inl e \<Rightarrow> (Some e, fr)
      | Inr t \<Rightarrow> (None, fr\<lparr>fr_trace := t\<rparr>))"

text \<open>Line 342: \<open>streams[key].append(trace)\<close>.\<close>

definition append_stage :: "string \<Rightarrow> 'inv frame \<Rightarrow> exn option \<times> 'inv frame" where
  "append_stage key fr =
     (case streams (fr_plotter fr) key of
        None \<Rightarrow> (Some (KeyError key), fr)
      | Some old \<Rightarrow> (None, fr\<lparr>fr_plotter := store_buffer key (old @ [fr_trace fr]) (fr_plotter fr)\<rparr>))"

text \<open>Line 343: \<open>streams[key].merge(method=1, fill_value='interpolate')\<close>.\<close>

definition merge_stage :: "string \<Rightarrow> 'inv frame \<Rightarrow> exn option \<times> 'inv frame" where
  "merge_stage key fr =
     (case streams (fr_plotter fr) key of
        None \<Rightarrow> (Some (KeyError key), fr)
      | Some trs \<Rightarrow>
          (case stream_merge trs of
             Inl e \<Rightarrow> (Some e, fr)
           | Inr merged \<Rightarrow>
               (None, fr\<lparr>fr_plotter := store_buffer key merged (fr_plotter fr),
                          fr_shared := (merge_keeps_object trs \<and> data (fr_trace fr) \<noteq> [])\<rparr>)))"

text \<open>Lines 347-348: \<open>streams[key].trim(t_now - window_seconds, t_now, pad=True, fill_value=0)\<close>.\<close>

definition window_stage :: "string \<Rightarrow> utc \<Rightarrow> 'inv frame \<Rightarrow> exn option \<times> 'inv frame" where
  "window_stage key t_now fr =
     (let p = fr_plotter fr; lo = t_now - window_seconds p in
      case streams p key of
        None \<Rightarrow> (Some (KeyError key), fr)
      | Some trs \<Rightarrow>
          (case stream_trim lo t_now trs of
             Inl e \<Rightarrow> (Some e, fr)
           | Inr trimmed \<Rightarrow>
               (let t' = (if fr_shared fr then trim_in_stream lo t_now trs (fr_trace fr) else fr_trace fr)
                in (None, fr\<lparr>fr_plotter := store_buffer key trimmed p,
                              fr_trace := t',
                              fr_shared := (fr_shared fr \<and> data t' \<noteq> [])\<rparr>))))"

text \<open>Line 353: \<open>trace.remove_response(inventory=inventories[station], output="VEL")\<close>.\<close>

definition correct_stage :: "'inv env \<Rightarrow> string \<Rightarrow> string \<Rightarrow> 'inv frame \<Rightarrow> exn option \<times> 'inv frame" where
  "correct_stage E sta key fr =
     (case inventories (fr_plotter fr) sta of
        None \<Rightarrow> (Some (KeyError sta), fr)
      | Some resp \<Rightarrow>
          (case remove_response E resp (fr_trace fr) of
             Inl e \<Rightarrow> (Some e, fr)
           | Inr t \<Rightarrow> (None, sync_buffer key (fr\<lparr>fr_trace := t\<rparr>))))"

text \<open>Line 356: \<open>trace.trim(t_now - window_seconds, t_now, pad=True, fill_value=0)\<close>.\<close>

definition trim_trace_stage :: "string \<Rightarrow> utc \<Rightarrow> 'inv frame \<Rightarrow> exn option \<times> 'inv frame" where
  "trim_trace_stage key t_now fr =
     (case trace_trim True (t_now - window_seconds (fr_plotter fr)) t_now (fr_trace fr) of
        Inl e \<Rightarrow> (Some e, fr)
      | Inr t \<Rightarrow> (None, sync_buffer key (fr\<lparr>fr_trace := t\<rparr>)))"

text \<open>
  Lines 362-373: the four assignments to \<open>current_values[station]\<close>, each after the
  computation of its right-hand side.
\<close>

definition update_values ::
  "string \<Rightarrow> utc \<Rightarrow> trace \<Rightarrow> (string \<rightharpoonup> metric_values) \<Rightarrow> exn option \<times> (string \<rightharpoonup> metric_values)" where
  "update_values sta t_now recorte cv =
     (case abs_max (data recorte) of
        Inl e \<Rightarrow> (Some e, cv)
      | Inr v \<Rightarrow>
     let cv1 = cv(sta \<mapsto> (cv_lookup cv sta)\<lparr>vel := v * 1000000\<rparr>) in
     (case abs_max (cumtrapz (delta_t recorte) (data recorte)) of
        Inl e \<Rightarrow> (Some e, cv1)
      | Inr d \<Rightarrow>
     let cv2 = cv1(sta \<mapsto> (cv_lookup cv1 sta)\<lparr>desp := d * 1000000\<rparr>) in
     (case gradient (delta_t recorte) (data recorte) of
        Inl e \<Rightarrow> (Some e, cv2)
      | Inr g \<Rightarrow>
     (case abs_max g of
        Inl e \<Rightarrow> (Some e, cv2)
      | Inr a \<Rightarrow>
     let cv3 = cv2(sta \<mapsto> (cv_lookup cv2 sta)\<lparr>acel := a * 1000000\<rparr>) in
     (None, cv3(sta \<mapsto> (cv_lookup cv3 sta)\<lparr>last_update := Some t_now\<rparr>))))))"

text \<open>Lines 358-373: the 10-second slice and, when it holds samples, the new values.\<close>

definition metrics_stage :: "string \<Rightarrow> utc \<Rightarrow> 'inv frame \<Rightarrow> exn option \<times> 'inv frame" where
  "metrics_stage sta t_now fr =
     (case slice (t_now - 10) t_now (fr_trace fr) of
        Inl e \<Rightarrow> (Some e, fr)
      | Inr recorte \<Rightarrow>
          if data recorte \<noteq> []
          then (case update_values sta t_now recorte (current_values (fr_plotter fr)) of
                  (r, cv) \<Rightarrow> (r, fr\<lparr>fr_plotter := (fr_plotter fr)\<lparr>current_values := cv\<rparr>\<rparr>))
          else (None, fr))"

text \<open>
  The stages up to the window trim (lines 334-348) and the stages from the response
  correction on (lines 353-373).
\<close>

definition buffer_stages ::
  "'inv env \<Rightarrow> utc \<Rightarrow> utc \<Rightarrow> string \<Rightarrow> string \<Rightarrow> ('inv frame \<Rightarrow> exn option \<times> 'inv frame) list" where
  "buffer_stages E now t_now key sta =
     [touch_stage sta now, detrend_stage E ''linear'', detrend_stage E ''demean'',
      append_stage key, merge_stage key, window_stage key t_now]"

definition metric_stages ::
  "'inv env \<Rightarrow> utc \<Rightarrow> string \<Rightarrow> string \<Rightarrow> ('inv frame \<Rightarrow> exn option \<times> 'inv frame) list" where
  "metric_stages E t_now key sta =
     [correct_stage E sta key, trim_trace_stage key t_now, metrics_stage sta t_now]"

text \<open>
  \<open>on_data\<close> (lines 327-383). \<open>now\<close> and \<open>t_now\<close> are the two readings of
  \<open>UTCDateTime.now()\<close> (lines 334 and 347). The result is the exception that the
  \<open>except\<close> clause printed, if any, and the plotter after the call.
\<close>

definition on_data :: "'inv env \<Rightarrow> utc \<Rightarrow> utc \<Rightarrow> trace \<Rightarrow> 'inv plotter \<Rightarrow> exn option \<times> 'inv plotter" where
  "on_data E now t_now tr p =
     (let key = trace_key tr; sta = station tr in
      if streams p key \<noteq> None
      then (case try_block (buffer_stages E now t_now key sta @ metric_stages E t_now key sta)
                   \<lparr>fr_plotter = p, fr_trace = tr, fr_shared = False\<rparr> of
              (r, fr) \<Rightarrow> (r, fr_plotter fr))
      else (None, p))"

section \<open>Rendering: the state that \<open>update_plot\<close> reads and writes\<close>

text \<open>Lines 275-276: the staleness check of one station.\<close>

definition evaluate :: "utc \<Rightarrow> string \<Rightarrow> 'inv plotter \<Rightarrow> exn option \<times> 'inv plotter" where
  "evaluate current_time sta p =
     (case last_data_times p sta of
        None \<Rightarrow> (Some (KeyError sta), p)
      | Some None \<Rightarrow> (None, p)
      | Some (Some t) \<Rightarrow>
          if current_time - t > data_timeout p
          then (None, p\<lparr>connection_status := (connection_status p)(sta \<mapsto> False)\<rparr>)
          else (None, p))"

text \<open>
  Lines 279-313, without the drawing calls: the reads of \<open>connection_status[sta]\<close> and
  \<open>streams[key]\<close>, which raise on a missing key, and the read of \<open>current_values[sta]\<close>,
  which stores the default entry for a missing key.
\<close>

definition read_station :: "string \<Rightarrow> string \<Rightarrow> 'inv plotter \<Rightarrow> exn option \<times> 'inv plotter" where
  "read_station key sta p =
     (if connection_status p sta = None then (Some (KeyError sta), p)
      else if streams p key = None then (Some (KeyError key), p)
      else (None, p\<lparr>current_values := (current_values p)(sta \<mapsto> cv_lookup (current_values p) sta)\<rparr>))"

definition render_station :: "utc \<Rightarrow> station_tuple \<Rightarrow> ('inv plotter \<Rightarrow> exn option \<times> 'inv plotter) list" where
  "render_station current_time s =
     (case s of (net, sta, loc, cha) \<Rightarrow>
        [evaluate current_time sta, read_station (stream_key net sta loc cha) sta])"

text \<open>\<open>update_plot\<close> (lines 260-319): the loop over \<open>self.stations\<close>.\<close>

definition update_plot :: "utc \<Rightarrow> 'inv plotter \<Rightarrow> exn option \<times> 'inv plotter" where
  "update_plot current_time p = try_block (concat (map (render_station current_time) (stations p))) p"

text \<open>What \<open>update_plot\<close> shows for a configured tuple: both are looked up by \<open>sta\<close>.\<close>

definition liveness_of :: "'inv plotter \<Rightarrow> station_tuple \<Rightarrow> utc option option \<times> bool option" where
  "liveness_of p s = (last_data_times p (station_code s), connection_status p (station_code s))"

definition snapshot_of :: "'inv plotter \<Rightarrow> station_tuple \<Rightarrow> metric_values" where
  "snapshot_of p s = cv_lookup (current_values p) (station_code s)"

text \<open>A run of the program after construction: packets and render ticks in any order.\<close>

datatype event = OnData utc utc trace | UpdatePlot utc

fun step :: "'inv env \<Rightarrow> event \<Rightarrow> 'inv plotter \<Rightarrow> 'inv plotter" where
  "step E (OnData now t_now tr) p = snd (on_data E now t_now tr p)"
| "step E (UpdatePlot current_time) p = snd (update_plot current_time p)"

definition run :: "'inv env \<Rightarrow> event list \<Rightarrow> 'inv plotter \<Rightarrow> 'inv plotter" where
  "run E evs p = fold (step E) evs p"

section \<open>Auxiliary notions for the proofs\<close>

text \<open>A stage keeps a component \<open>g\<close> of the plotter when it never changes it, raising or not.\<close>

definition keeps :: "('inv plotter \<Rightarrow> 'a) \<Rightarrow> ('inv frame \<Rightarrow> exn option \<times> 'inv frame) \<Rightarrow> bool" where
  "keeps g f = (\<forall>fr. g (fr_plotter (snd (f fr))) = g (fr_plotter fr))"

text \<open>
  A small installation for the worked examples: two stations of network UX, of which only
  UIS09 has its StationXML file on disk; detrending and response removal leave the samples
  as they are.
\<close>

definition example_env :: "unit env" where
  "example_env =
     \<lparr>path_exists = (\<lambda>path. path = ''/net/sw/source/inventories/UIS09.xml''),
      read_inventory = (\<lambda>path. Inr ()),
      detrend = (\<lambda>kind tr. Inr tr),
      remove_response = (\<lambda>resp tr. Inr tr)\<rparr>"

definition example_trace :: "string \<Rightarrow> string \<Rightarrow> nat \<Rightarrow> utc \<Rightarrow> real list \<Rightarrow> trace" where
  "example_trace net sta rate t xs =
     \<lparr>network = net, station = sta, location = ''00'', channel = ''EHZ'',
      sampling_rate = rate, starttime = t, data = xs\<rparr>"

definition example_plotter :: "unit plotter" where
  "example_plotter =
     plotter_init example_env
       [(''UX'', ''UIS09'', ''00'', ''EHZ''), (''UX'', ''UIS05'', ''00'', ''EHZ'')]
       Map.empty ''192.168.84.112'' 150 500 30"

text \<open>
  The liveness of a station as the two tables \<open>last_data_times\<close> and
  \<open>connection_status\<close> hold it: no packet yet, fresh, or timed out.
\<close>

datatype liveness = UNKNOWN | CONNECTED | STALE

definition liveness_state :: "'inv plotter \<Rightarrow> string \<Rightarrow> liveness" where
  "liveness_state p sta =
     (if connection_status p sta = Some True then CONNECTED
      else (case last_data_times p sta of Some (Some t) \<Rightarrow> STALE | _ \<Rightarrow> UNKNOWN))"

text \<open>
  The tables of the plotter cover a configured tuple when they hold its station code and
  its stream key, as they do from \<open>__init__\<close> on; then \<open>update_plot\<close> raises no
  \<open>KeyError\<close> for it.
\<close>

definition covered :: "'inv plotter \<Rightarrow> station_tuple \<Rightarrow> bool" where
  "covered p s =
     (case s of (net, sta, loc, cha) \<Rightarrow>
        last_data_times p sta \<noteq> None \<and> connection_status p sta \<noteq> None
        \<and> streams p (stream_key net sta loc cha) \<noteq> None)"

definition tables_cover :: "'inv plotter \<Rightarrow> bool" where
  "tables_cover p = list_all (covered p) (stations p)"

text \<open>The staleness condition of line 275 for a station at the clock reading \<open>c\<close>.\<close>

definition timed_out :: "utc \<Rightarrow> 'inv plotter \<Rightarrow> string \<Rightarrow> bool" where
  "timed_out c p sta =
     (case last_data_times p sta of
        Some (Some u) \<Rightarrow> c - u > data_timeout p
      | _ \<Rightarrow> False)"

text \<open>A selection with the same station code in two networks.\<close>

definition two_network_plotter :: "unit plotter" where
  "two_network_plotter =
     plotter_init example_env
       [(''UX'', ''UIS09'', ''00'', ''EHZ''), (''ZZ'', ''UIS09'', ''00'', ''EHZ'')]
       Map.empty ''192.168.84.112'' 150 500 30"

text \<open>The example installation with a window of 12 seconds.\<close>

definition short_window_plotter :: "unit plotter" where
  "short_window_plotter =
     plotter_init example_env
       [(''UX'', ''UIS09'', ''00'', ''EHZ''), (''UX'', ''UIS05'', ''00'', ''EHZ'')]
       Map.empty ''192.168.84.112'' 12 500 30"

text \<open>
  The order of steps that the specification gives for the ingestion entry point, built from
  the same stages: append, merge, trim, liveness touch, response correction, metric update.
\<close>

definition spec_order_stages ::
  "'inv env \<Rightarrow> utc \<Rightarrow> utc \<Rightarrow> string \<Rightarrow> string \<Rightarrow> ('inv frame \<Rightarrow> exn option \<times> 'inv frame) list" where
  "spec_order_stages E now t_now key sta =
     [append_stage key, merge_stage key, window_stage key t_now, touch_stage sta now,
      correct_stage E sta key, metrics_stage sta t_now]"

definition on_sample_spec_order ::
  "'inv env \<Rightarrow> utc \<Rightarrow> utc \<Rightarrow> trace \<Rightarrow> 'inv plotter \<Rightarrow> exn option \<times> 'inv plotter" where
  "on_sample_spec_order E now t_now tr p =
     (let key = trace_key tr; sta = station tr in
      if streams p key \<noteq> None
      then (case try_block (spec_order_stages E now t_now key sta)
                   \<lparr>fr_plotter = p, fr_trace = tr, fr_shared = False\<rparr> of
              (r, fr) \<Rightarrow> (r, fr_plotter fr))
      else (None, p))"

text \<open>
  After the merge the buffer holds the incoming trace object itself when that trace is the
  only one with samples among the buffered traces and the incoming one.
\<close>

definition shares_object :: "trace list \<Rightarrow> trace \<Rightarrow> bool" where
  "shares_object old t = (merge_keeps_object (old @ [t]) \<and> data t \<noteq> [])"

text \<open>
  Two packets of UX.UIS09: the first one of the stream, and a later one with another
  sampling rate.
\<close>

definition first_packet :: trace where
  "first_packet = example_trace ''UX'' ''UIS09'' 1 98 [3, -4, 1]"

definition after_first_packet :: "unit plotter" where
  "after_first_packet = snd (on_data example_env 100 101 first_packet short_window_plotter)"

definition odd_rate_packet :: trace where
  "odd_rate_packet = example_trace ''UX'' ''UIS09'' 2 101 [5, 5, 5, 5]"

text \<open>
  The sample that a trace holds at exactly the time \<open>t\<close>, if \<open>t\<close> is one of its sample
  points; \<open>on_grid tr t\<close> says that \<open>t\<close> lies a whole number of sample intervals from the
  start of \<open>tr\<close>.
\<close>

definition on_grid :: "trace \<Rightarrow> utc \<Rightarrow> bool" where
  "on_grid tr t =
     ((t - starttime tr) * real (sampling_rate tr)
        = real_of_int \<lfloor>(t - starttime tr) * real (sampling_rate tr)\<rfloor>)"

definition sample_at :: "trace \<Rightarrow> utc \<Rightarrow> real option" where
  "sample_at tr t =
     (let k = \<lfloor>(t - starttime tr) * real (sampling_rate tr)\<rfloor>
      in if on_grid tr t \<and> 0 \<le> k \<and> k < int (npts tr) then Some (data tr ! nat k) else None)"

text \<open>The window-trimmed trace, as \<open>on_data\<close> asks for it.\<close>

definition trimmed :: "utc \<Rightarrow> utc \<Rightarrow> trace \<Rightarrow> trace" where
  "trimmed lo hi tr = rtrim True hi (ltrim True lo tr)"

text \<open>
  The gap scenario: a block at seconds 0 to 1, handled at second 2, and the next block at
  seconds 6 to 7, handled at second 8, with a window of 12 seconds.
\<close>

definition before_gap :: trace where
  "before_gap = example_trace ''UX'' ''UIS09'' 1 0 [8, 8]"

definition after_gap :: trace where
  "after_gap = example_trace ''UX'' ''UIS09'' 1 6 [4, 4]"

definition gap_plotter :: "unit plotter" where
  "gap_plotter =
     snd (on_data example_env 8 8 after_gap (snd (on_data example_env 2 2 before_gap short_window_plotter)))"

text \<open>
  The first difference that the specification names for the acceleration:
  \<open>(x[i+1] - x[i]) / dx\<close>.
\<close>

definition first_difference :: "real \<Rightarrow> real list \<Rightarrow> real list" where
  "first_difference dx xs = map (\<lambda>(x, y). (y - x) / dx) (zip xs (tl xs))"

section \<open>What the stages of \<open>on_data\<close> leave unchanged\<close>

lemmas stage_defs = touch_stage_def detrend_stage_def append_stage_def merge_stage_def
  window_stage_def correct_stage_def trim_trace_stage_def metrics_stage_def sync_buffer_def
  store_buffer_def touch_def

lemma try_block_keeps:
  "list_all (keeps g) fs \<Longrightarrow> g (fr_plotter (snd (try_block fs fr))) = g (fr_plotter fr)"
proof (induction fs arbitrary: fr)
  case Nil
  then show ?case by simp
next
  case (Cons f fs)
  from Cons.prems have "keeps g f" and rest: "list_all (keeps g) fs"
    by simp_all
  then have kf: "g (fr_plotter (snd (f fr))) = g (fr_plotter fr)"
    by (simp add: keeps_def)
  show ?case
  proof (cases "f fr")
    case (Pair r fr')
    with kf have eq: "g (fr_plotter fr') = g (fr_plotter fr)" by simp
    show ?thesis
    proof (cases r)
      case None
      with Pair eq Cons.IH[OF rest, of fr'] show ?thesis by simp
    next
      case (Some e)
      with Pair eq show ?thesis by simp
    qed
  qed
qed

lemma try_block_append:
  "try_block (fs @ gs) s =
     (case try_block fs s of (None, s') \<Rightarrow> try_block gs s' | (Some e, s') \<Rightarrow> (Some e, s'))"
  by (induction fs arbitrary: s) (auto split: prod.splits option.splits)

lemma keeps_touch_stage:
  "(\<And>p. g (touch sta now p) = g p) \<Longrightarrow> keeps g (touch_stage sta now)"
  by (simp add: keeps_def touch_stage_def)

lemma keeps_detrend_stage: "keeps g (detrend_stage E kind)"
  by (simp add: keeps_def detrend_stage_def split: sum.splits)

lemma keeps_append_stage:
  "(\<And>p trs. g (store_buffer key trs p) = g p) \<Longrightarrow> keeps g (append_stage key)"
  by (simp add: keeps_def append_stage_def split: option.splits)

lemma keeps_merge_stage:
  "(\<And>p trs. g (store_buffer key trs p) = g p) \<Longrightarrow> keeps g (merge_stage key)"
  by (simp add: keeps_def merge_stage_def split: option.splits sum.splits)

lemma keeps_window_stage:
  "(\<And>p trs. g (store_buffer key trs p) = g p) \<Longrightarrow> keeps g (window_stage key t_now)"
  by (simp add: keeps_def window_stage_def Let_def split: option.splits sum.splits)

lemma keeps_correct_stage:
  "(\<And>p trs. g (store_buffer key trs p) = g p) \<Longrightarrow> keeps g (correct_stage E sta key)"
  by (simp add: keeps_def correct_stage_def sync_buffer_def split: option.splits sum.splits)

lemma keeps_trim_trace_stage:
  "(\<And>p trs. g (store_buffer key trs p) = g p) \<Longrightarrow> keeps g (trim_trace_stage key t_now)"
  by (simp add: keeps_def trim_trace_stage_def sync_buffer_def split: option.splits sum.splits)

lemma keeps_metrics_stage:
  "(\<And>p cv. g (p\<lparr>current_values := cv\<rparr>) = g p) \<Longrightarrow> keeps g (metrics_stage sta t_now)"
  by (simp add: keeps_def metrics_stage_def split: option.splits sum.splits prod.splits)


lemma buffer_stages_keep:
  assumes "\<And>p trs. g (store_buffer key trs p) = g p" and "\<And>p. g (touch sta now p) = g p"
  shows "list_all (keeps g) (buffer_stages E now t_now key sta)"
  using assms
  by (simp add: buffer_stages_def keeps_touch_stage keeps_detrend_stage keeps_append_stage
      keeps_merge_stage keeps_window_stage)

lemma update_values_other:
  "k \<noteq> sta \<Longrightarrow> snd (update_values sta t_now recorte cv) k = cv k"
  by (simp add: update_values_def Let_def split: sum.splits)

lemma keeps_metrics_stage_other:
  assumes "k \<noteq> sta"
  shows "keeps (\<lambda>p. current_values p k) (metrics_stage sta t_now)"
proof -
  have "current_values (fr_plotter (snd (metrics_stage sta t_now fr))) k = current_values (fr_plotter fr) k" for fr :: "'a frame"
  proof (cases "slice (t_now - 10) t_now (fr_trace fr)")
    case (Inl e)
    then show ?thesis by (simp add: metrics_stage_def)
  next
    case (Inr recorte)
    show ?thesis
    proof (cases "data recorte = []")
      case True
      with Inr show ?thesis by (simp add: metrics_stage_def)
    next
      case False
      obtain r cv where uv: "update_values sta t_now recorte (current_values (fr_plotter fr)) = (r, cv)"
        by (cases "update_values sta t_now recorte (current_values (fr_plotter fr))")
      from update_values_other[OF assms, of t_now recorte "current_values (fr_plotter fr)"] uv
      have "cv k = current_values (fr_plotter fr) k" by simp
      with Inr False uv show ?thesis by (simp add: metrics_stage_def)
    qed
  qed
  then show ?thesis by (simp add: keeps_def)
qed

lemma metric_stages_keep:
  assumes "\<And>p trs. g (store_buffer key trs p) = g p" and "\<And>p cv. g (p\<lparr>current_values := cv\<rparr>) = g p"
  shows "list_all (keeps g) (metric_stages E t_now key sta)"
  using assms
  by (simp add: metric_stages_def keeps_correct_stage keeps_trim_trace_stage keeps_metrics_stage)

lemma metric_stages_keep_other:
  assumes "k \<noteq> sta"
  shows "list_all (keeps (\<lambda>p. current_values p k)) (metric_stages E t_now key sta)"
  using assms
  by (simp add: metric_stages_def keeps_correct_stage keeps_trim_trace_stage
      keeps_metrics_stage_other store_buffer_def)

lemma snd_on_data:
  "snd (on_data E now t_now tr p) =
     (if streams p (trace_key tr) \<noteq> None
      then fr_plotter (snd (try_block (buffer_stages E now t_now (trace_key tr) (station tr)
                                        @ metric_stages E t_now (trace_key tr) (station tr))
                              \<lparr>fr_plotter = p, fr_trace = tr, fr_shared = False\<rparr>))
      else p)"
  by (simp add: on_data_def Let_def split: prod.splits)

lemma fst_on_data:
  "fst (on_data E now t_now tr p) =
     (if streams p (trace_key tr) \<noteq> None
      then fst (try_block (buffer_stages E now t_now (trace_key tr) (station tr)
                            @ metric_stages E t_now (trace_key tr) (station tr))
                  \<lparr>fr_plotter = p, fr_trace = tr, fr_shared = False\<rparr>)
      else None)"
  by (simp add: on_data_def Let_def split: prod.splits)

text \<open>A field that neither the buffer store, the touch nor the metric update writes.\<close>

lemma on_data_keeps:
  assumes "\<And>p trs. g (store_buffer (trace_key tr) trs p) = g p"
    and "\<And>p. g (touch (station tr) now p) = g p"
    and "\<And>p cv. g (p\<lparr>current_values := cv\<rparr>) = g p"
  shows "g (snd (on_data E now t_now tr p)) = g p"
proof (cases "streams p (trace_key tr) = None")
  case True
  then show ?thesis by (simp add: on_data_def)
next
  case False
  have "list_all (keeps g) (buffer_stages E now t_now (trace_key tr) (station tr) @ metric_stages E t_now (trace_key tr) (station tr))"
    using buffer_stages_keep[of g, OF assms(1,2)] metric_stages_keep[of g, OF assms(1,3)]
    by simp
  from try_block_keeps[OF this] False show ?thesis
    by (simp add: snd_on_data)
qed

lemma on_data_inventories: "inventories (snd (on_data E now t_now tr p)) = inventories p"
  by (rule on_data_keeps) (simp_all add: store_buffer_def touch_def)

lemma on_data_data_timeout: "data_timeout (snd (on_data E now t_now tr p)) = data_timeout p"
  by (rule on_data_keeps) (simp_all add: store_buffer_def touch_def)

lemma on_data_window_seconds: "window_seconds (snd (on_data E now t_now tr p)) = window_seconds p"
  by (rule on_data_keeps) (simp_all add: store_buffer_def touch_def)

lemma on_data_stations: "stations (snd (on_data E now t_now tr p)) = stations p"
  by (rule on_data_keeps) (simp_all add: store_buffer_def touch_def)

lemma on_data_current_values_other:
  assumes "k \<noteq> station tr"
  shows "current_values (snd (on_data E now t_now tr p)) k = current_values p k"
proof (cases "streams p (trace_key tr) = None")
  case True
  then show ?thesis by (simp add: on_data_def)
next
  case False
  have "list_all (keeps (\<lambda>p. current_values p k))
          (buffer_stages E now t_now (trace_key tr) (station tr) @ metric_stages E t_now (trace_key tr) (station tr))"
    using buffer_stages_keep[of "\<lambda>p. current_values p k" "trace_key tr" "station tr" now E t_now]
      metric_stages_keep_other[OF assms, of E t_now "trace_key tr"]
    by (simp add: store_buffer_def touch_def)
  from try_block_keeps[OF this] False show ?thesis
    by (simp add: snd_on_data)
qed

text \<open>With no inventory for the station, the block ends at the response correction.\<close>

lemma on_data_missing_inventory:
  assumes "inventories p (station tr) = None" and "streams p (trace_key tr) \<noteq> None"
  shows "on_data E now t_now tr p =
     (case try_block (buffer_stages E now t_now (trace_key tr) (station tr))
             \<lparr>fr_plotter = p, fr_trace = tr, fr_shared = False\<rparr> of
        (None, fr) \<Rightarrow> (Some (KeyError (station tr)), fr_plotter fr)
      | (Some e, fr) \<Rightarrow> (Some e, fr_plotter fr))"
proof -
  let ?fr0 = "\<lparr>fr_plotter = p, fr_trace = tr, fr_shared = False\<rparr>"
  obtain r fr where tb: "try_block (buffer_stages E now t_now (trace_key tr) (station tr)) ?fr0 = (r, fr)"
    by (cases "try_block (buffer_stages E now t_now (trace_key tr) (station tr)) ?fr0")
  have "inventories (fr_plotter (snd (try_block (buffer_stages E now t_now (trace_key tr) (station tr)) ?fr0)))
          = inventories (fr_plotter ?fr0)"
    by (rule try_block_keeps, rule buffer_stages_keep) (simp_all add: store_buffer_def touch_def)
  with tb assms(1) have inv: "inventories (fr_plotter fr) (station tr) = None" by simp
  show ?thesis
  proof (cases r)
    case None
    with tb inv assms(2) show ?thesis
      by (simp add: on_data_def Let_def try_block_append metric_stages_def correct_stage_def)
  next
    case (Some e)
    with tb assms(2) show ?thesis
      by (simp add: on_data_def Let_def try_block_append)
  qed
qed

lemma on_data_missing_inventory_current_values:
  assumes "inventories p (station tr) = None"
  shows "current_values (snd (on_data E now t_now tr p)) = current_values p"
proof (cases "streams p (trace_key tr) = None")
  case True
  then show ?thesis by (simp add: on_data_def)
next
  case False
  let ?fr0 = "\<lparr>fr_plotter = p, fr_trace = tr, fr_shared = False\<rparr>"
  have "current_values (fr_plotter (snd (try_block (buffer_stages E now t_now (trace_key tr) (station tr)) ?fr0)))
          = current_values (fr_plotter ?fr0)"
    by (rule try_block_keeps, rule buffer_stages_keep) (simp_all add: store_buffer_def touch_def)
  then show ?thesis
    by (cases "try_block (buffer_stages E now t_now (trace_key tr) (station tr)) ?fr0")
       (simp add: on_data_missing_inventory[OF assms False] split: option.splits)
qed

lemma try_block_invariant:
  assumes "\<And>f s. f \<in> set fs \<Longrightarrow> P s \<Longrightarrow> P (snd (f s))" and "P s"
  shows "P (snd (try_block fs s))"
  using assms
proof (induction fs arbitrary: s)
  case Nil
  then show ?case by simp
next
  case (Cons f fs)
  have step: "P (snd (f s))" using Cons.prems by simp
  obtain r s' where fs: "f s = (r, s')" by (cases "f s")
  with step have P': "P s'" by simp
  show ?case
  proof (cases r)
    case None
    have "P (snd (try_block fs s'))"
      by (rule Cons.IH) (use Cons.prems P' in auto)
    with fs None show ?thesis by simp
  next
    case (Some e)
    with fs P' show ?thesis by simp
  qed
qed

lemma on_data_unsubscribed:
  "streams p (trace_key tr) = None \<Longrightarrow> on_data E now t_now tr p = (None, p)"
  by (simp add: on_data_def)

lemma on_data_liveness_other:
  assumes "k \<noteq> station tr"
  shows "last_data_times (snd (on_data E now t_now tr p)) k = last_data_times p k"
    and "connection_status (snd (on_data E now t_now tr p)) k = connection_status p k"
proof -
  show "last_data_times (snd (on_data E now t_now tr p)) k = last_data_times p k"
    by (rule on_data_keeps[where g = "\<lambda>p. last_data_times p k"])
       (use assms in \<open>simp_all add: store_buffer_def touch_def\<close>)
  show "connection_status (snd (on_data E now t_now tr p)) k = connection_status p k"
    by (rule on_data_keeps[where g = "\<lambda>p. connection_status p k"])
       (use assms in \<open>simp_all add: store_buffer_def touch_def\<close>)
qed

lemma after_touch_keep:
  assumes "\<And>p trs. g (store_buffer key trs p) = g p" and "\<And>p cv. g (p\<lparr>current_values := cv\<rparr>) = g p"
  shows "list_all (keeps g)
           ([detrend_stage E ''linear'', detrend_stage E ''demean'', append_stage key,
             merge_stage key, window_stage key t_now] @ metric_stages E t_now key sta)"
  using assms metric_stages_keep[of g key E t_now sta]
  by (simp add: keeps_detrend_stage keeps_append_stage keeps_merge_stage keeps_window_stage)

lemma on_data_touch:
  assumes "streams p (trace_key tr) \<noteq> None"
  shows "last_data_times (snd (on_data E now t_now tr p)) (station tr) = Some (Some now)"
    and "connection_status (snd (on_data E now t_now tr p)) (station tr) = Some True"
proof -
  let ?key = "trace_key tr" and ?sta = "station tr"
  let ?rest = "[detrend_stage E ''linear'', detrend_stage E ''demean'', append_stage ?key,
             merge_stage ?key, window_stage ?key t_now] @ metric_stages E t_now ?key ?sta"
  let ?fr1 = "\<lparr>fr_plotter = touch ?sta now p, fr_trace = tr, fr_shared = False\<rparr>"
  have unfold: "snd (on_data E now t_now tr p) = fr_plotter (snd (try_block ?rest ?fr1))"
    using assms by (simp add: snd_on_data buffer_stages_def touch_stage_def)
  have "last_data_times (fr_plotter (snd (try_block ?rest ?fr1))) = last_data_times (fr_plotter ?fr1)"
    by (rule try_block_keeps, rule after_touch_keep) (simp_all add: store_buffer_def)
  then show "last_data_times (snd (on_data E now t_now tr p)) (station tr) = Some (Some now)"
    by (simp add: unfold touch_def)
  have "connection_status (fr_plotter (snd (try_block ?rest ?fr1))) = connection_status (fr_plotter ?fr1)"
    by (rule try_block_keeps, rule after_touch_keep) (simp_all add: store_buffer_def)
  then show "connection_status (snd (on_data E now t_now tr p)) (station tr) = Some True"
    by (simp add: unfold touch_def)
qed

text \<open>The render tick.\<close>

lemma evaluate_keeps:
  assumes "\<And>q cs. g (q\<lparr>connection_status := cs\<rparr>) = g q"
  shows "g (snd (evaluate current_time sta q)) = g q"
  using assms by (simp add: evaluate_def split: option.splits)

lemma read_station_keeps:
  assumes "\<And>q cv. g (q\<lparr>current_values := cv\<rparr>) = g q"
  shows "g (snd (read_station key sta q)) = g q"
  using assms by (simp add: read_station_def)

lemma render_station_cases:
  "f \<in> set (concat (map (render_station current_time) sts)) \<Longrightarrow>
     (\<exists>sta. f = evaluate current_time sta) \<or> (\<exists>key sta. f = read_station key sta)"
  by (auto simp add: render_station_def split: prod.splits)

lemma update_plot_keeps:
  fixes p :: "'inv plotter"
  assumes "\<And>q cs. g (q\<lparr>connection_status := cs\<rparr>) = g q"
    and "\<And>q cv. g (q\<lparr>current_values := cv\<rparr>) = g q"
  shows "g (snd (update_plot current_time p)) = g p"
proof -
  have "(\<lambda>q. g q = g p) (snd (try_block (concat (map (render_station current_time) (stations p))) p))"
  proof (rule try_block_invariant)
    fix f :: "'inv plotter \<Rightarrow> exn option \<times> 'inv plotter" and s :: "'inv plotter"
    assume "f \<in> set (concat (map (render_station current_time) (stations p)))" and "g s = g p"
    then show "g (snd (f s)) = g p"
      using render_station_cases[of f current_time "stations p"]
        evaluate_keeps[of g, OF assms(1)] read_station_keeps[of g, OF assms(2)]
      by auto
  qed simp
  then show ?thesis by (simp add: update_plot_def)
qed

lemma update_plot_inventories: "inventories (snd (update_plot current_time p)) = inventories p"
  by (rule update_plot_keeps) simp_all

lemma update_plot_last_data_times: "last_data_times (snd (update_plot current_time p)) = last_data_times p"
  by (rule update_plot_keeps) simp_all

lemma update_plot_data_timeout: "data_timeout (snd (update_plot current_time p)) = data_timeout p"
  by (rule update_plot_keeps) simp_all

lemma update_plot_streams: "streams (snd (update_plot current_time p)) = streams p"
  by (rule update_plot_keeps) simp_all

lemma read_station_cv_lookup:
  "cv_lookup (current_values (snd (read_station key sta q))) k = cv_lookup (current_values q) k"
  by (simp add: read_station_def cv_lookup_def)

lemma update_plot_cv_lookup:
  fixes p :: "'inv plotter"
  shows "cv_lookup (current_values (snd (update_plot current_time p))) k = cv_lookup (current_values p) k"
proof -
  let ?P = "\<lambda>q. cv_lookup (current_values q) k = cv_lookup (current_values p) k"
  have "?P (snd (try_block (concat (map (render_station current_time) (stations p))) p))"
  proof (rule try_block_invariant)
    fix f :: "'inv plotter \<Rightarrow> exn option \<times> 'inv plotter" and s :: "'inv plotter"
    assume mem: "f \<in> set (concat (map (render_station current_time) (stations p)))" and Ps: "?P s"
    have ev: "cv_lookup (current_values (snd (evaluate current_time sta s))) k = cv_lookup (current_values s) k" for sta
      by (rule evaluate_keeps[where g = "\<lambda>q. cv_lookup (current_values q) k"]) simp
    from render_station_cases[OF mem] show "?P (snd (f s))"
      using ev read_station_cv_lookup[of _ _ s k] Ps by auto
  qed simp
  then show ?thesis by (simp add: update_plot_def)
qed

lemma step_inventories: "inventories (step E ev p) = inventories p"
  by (cases ev) (simp_all add: on_data_inventories update_plot_inventories)

lemma step_missing_inventory_cv_lookup:
  assumes "inventories p X = None"
  shows "cv_lookup (current_values (step E ev p)) X = cv_lookup (current_values p) X"
proof (cases ev)
  case (OnData now t_now tr)
  show ?thesis
  proof (cases "station tr = X")
    case True
    with assms OnData show ?thesis
      by (simp add: on_data_missing_inventory_current_values)
  next
    case False
    then have "current_values (snd (on_data E now t_now tr p)) X = current_values p X"
      by (intro on_data_current_values_other) simp
    with OnData show ?thesis by (simp add: cv_lookup_def)
  qed
next
  case (UpdatePlot current_time)
  then show ?thesis by (simp add: update_plot_cv_lookup)
qed

lemma run_missing_inventory:
  assumes "inventories p X = None"
  shows "inventories (run E evs p) X = None \<and>
         cv_lookup (current_values (run E evs p)) X = cv_lookup (current_values p) X"
  using assms
proof (induction evs arbitrary: p)
  case Nil
  then show ?case by (simp add: run_def)
next
  case (Cons ev evs)
  have "inventories (step E ev p) X = None"
    using Cons.prems by (simp add: step_inventories)
  from Cons.IH[OF this] show ?case
    using step_missing_inventory_cv_lookup[OF Cons.prems, of E ev]
    by (simp add: run_def)
qed

lemma map_of_station_table:
  "s \<in> set sts \<Longrightarrow> map_of (map (\<lambda>(net, sta, loc, cha). (sta, v)) sts) (station_code s) = Some v"
  by (induction sts) (auto simp add: station_code_def split: prod.splits)

lemma init_liveness:
  "s \<in> set sts \<Longrightarrow>
     last_data_times (plotter_init E sts a h w r t) (station_code s) = Some None
   \<and> connection_status (plotter_init E sts a h w r t) (station_code s) = Some False"
  by (simp add: plotter_init_def map_of_station_table)

lemma init_unknown:
  "s \<in> set sts \<Longrightarrow> liveness_state (plotter_init E sts a h w r t) (station_code s) = UNKNOWN"
  using init_liveness[of s sts E a h w r t] by (simp add: liveness_state_def)

lemma on_data_connected:
  "streams p (trace_key tr) \<noteq> None \<Longrightarrow>
     liveness_state (snd (on_data E now t_now tr p)) (station tr) = CONNECTED"
  by (simp add: liveness_state_def on_data_touch)

lemma on_data_liveness_state_other:
  "k \<noteq> station tr \<Longrightarrow> liveness_state (snd (on_data E now t_now tr p)) k = liveness_state p k"
  by (simp add: liveness_state_def on_data_liveness_other)

lemma evaluate_last_data_times: "last_data_times (snd (evaluate c sta p)) = last_data_times p"
  by (rule evaluate_keeps) simp

lemma evaluate_data_timeout: "data_timeout (snd (evaluate c sta p)) = data_timeout p"
  by (rule evaluate_keeps) simp

lemma evaluate_connected:
  "last_data_times p sta = Some (Some t0) \<Longrightarrow> liveness_state p sta = CONNECTED \<Longrightarrow>
     liveness_state (snd (evaluate c sta p)) sta = (if c - t0 > data_timeout p then STALE else CONNECTED)"
  by (auto simp add: evaluate_def liveness_state_def split: if_splits)

lemma evaluate_not_connected:
  "liveness_state p sta \<noteq> CONNECTED \<Longrightarrow> liveness_state (snd (evaluate c sta p)) sta = liveness_state p sta"
  by (auto simp add: evaluate_def liveness_state_def split: option.splits if_splits)

lemma evaluate_other:
  "k \<noteq> sta \<Longrightarrow> liveness_state (snd (evaluate c sta p)) k = liveness_state p k"
  by (auto simp add: evaluate_def liveness_state_def split: option.splits)

lemma read_station_liveness: "liveness_state (snd (read_station key sta p)) k = liveness_state p k"
  by (simp add: read_station_def liveness_state_def)

text \<open>A render tick changes a liveness state only from CONNECTED to STALE, on a timeout.\<close>

lemma update_plot_liveness:
  fixes p :: "'inv plotter"
  shows "liveness_state (snd (update_plot c p)) k = liveness_state p k
       \<or> (liveness_state p k = CONNECTED \<and> liveness_state (snd (update_plot c p)) k = STALE
          \<and> (\<exists>t0. last_data_times p k = Some (Some t0) \<and> c - t0 > data_timeout p))"
proof -
  let ?P = "\<lambda>q :: 'inv plotter. last_data_times q = last_data_times p \<and> data_timeout q = data_timeout p \<and>
      (liveness_state q k = liveness_state p k
       \<or> (liveness_state p k = CONNECTED \<and> liveness_state q k = STALE
          \<and> (\<exists>t0. last_data_times p k = Some (Some t0) \<and> c - t0 > data_timeout p)))"
  have "?P (snd (try_block (concat (map (render_station c) (stations p))) p))"
  proof (rule try_block_invariant)
    fix f :: "'inv plotter \<Rightarrow> exn option \<times> 'inv plotter" and s :: "'inv plotter"
    assume mem: "f \<in> set (concat (map (render_station c) (stations p)))" and Ps: "?P s"
    from render_station_cases[OF mem] show "?P (snd (f s))"
    proof
      assume "\<exists>sta. f = evaluate c sta"
      then obtain sta where f: "f = evaluate c sta" by blast
      show ?thesis
      proof (cases "k = sta \<and> liveness_state s k = CONNECTED")
        case False
        then have "liveness_state (snd (evaluate c sta s)) k = liveness_state s k"
          using evaluate_other[of k sta c s] evaluate_not_connected[of s sta c] by auto
        with Ps f show ?thesis
          by (simp add: evaluate_last_data_times evaluate_data_timeout)
      next
        case True
        then have conn: "connection_status s k = Some True"
          by (simp add: liveness_state_def split: if_splits option.splits)
        from True Ps have pc: "liveness_state p k = CONNECTED" by auto
        show ?thesis
        proof (cases "last_data_times s k")
          case None
          with True f Ps show ?thesis by (simp add: evaluate_def)
        next
          case (Some u)
          show ?thesis
          proof (cases u)
            case None
            with Some True f Ps show ?thesis by (simp add: evaluate_def)
          next
            case (Some t0)
            with \<open>last_data_times s k = Some u\<close> have l: "last_data_times s sta = Some (Some t0)"
              using True by simp
            from True have "liveness_state s sta = CONNECTED" by blast
            from evaluate_connected[OF l this, of c] True
            have "liveness_state (snd (evaluate c sta s)) k = (if c - t0 > data_timeout s then STALE else CONNECTED)"
              by simp
            with Ps f pc l True show ?thesis
              by (auto simp add: evaluate_last_data_times evaluate_data_timeout)
          qed
        qed
      qed
    next
      assume "\<exists>key sta. f = read_station key sta"
      then obtain key sta where f: "f = read_station key sta" by blast
      have "last_data_times (snd (read_station key sta s)) = last_data_times s"
        and "data_timeout (snd (read_station key sta s)) = data_timeout s"
        by (rule read_station_keeps, simp)+
      with Ps f show ?thesis by (simp add: read_station_liveness)
    qed
  qed simp
  then show ?thesis by (simp add: update_plot_def)
qed

lemma on_data_trace:
  assumes sub: "streams p (trace_key tr) = Some old"
    and d1: "detrend E ''linear'' tr = Inr t1" and d2: "detrend E ''demean'' t1 = Inr t2"
  shows "on_data E now t_now tr p =
     (case try_block ([merge_stage (trace_key tr), window_stage (trace_key tr) t_now]
                      @ metric_stages E t_now (trace_key tr) (station tr))
             \<lparr>fr_plotter = store_buffer (trace_key tr) (old @ [t2]) (touch (station tr) now p),
              fr_trace = t2, fr_shared = False\<rparr> of
        (r, fr) \<Rightarrow> (r, fr_plotter fr))"
  using assms
  by (simp add: on_data_def Let_def buffer_stages_def touch_stage_def detrend_stage_def
      append_stage_def touch_def store_buffer_def)

lemma on_data_detrend_fails:
  assumes sub: "streams p (trace_key tr) = Some old"
  shows "detrend E ''linear'' tr = Inl e \<Longrightarrow> on_data E now t_now tr p = (Some e, touch (station tr) now p)"
    and "detrend E ''linear'' tr = Inr t1 \<Longrightarrow> detrend E ''demean'' t1 = Inl e \<Longrightarrow>
           on_data E now t_now tr p = (Some e, touch (station tr) now p)"
  using assms
  by (simp_all add: on_data_def Let_def buffer_stages_def touch_stage_def detrend_stage_def)

lemma on_data_merge_fails:
  assumes sub: "streams p (trace_key tr) = Some old"
    and d1: "detrend E ''linear'' tr = Inr t1" and d2: "detrend E ''demean'' t1 = Inr t2"
    and m: "stream_merge (old @ [t2]) = Inl e"
  shows "on_data E now t_now tr p
           = (Some e, store_buffer (trace_key tr) (old @ [t2]) (touch (station tr) now p))"
  using m by (simp add: on_data_trace[OF sub d1 d2] merge_stage_def store_buffer_def)

lemma on_data_merged:
  assumes sub: "streams p (trace_key tr) = Some old"
    and d1: "detrend E ''linear'' tr = Inr t1" and d2: "detrend E ''demean'' t1 = Inr t2"
    and m: "stream_merge (old @ [t2]) = Inr merged"
  shows "on_data E now t_now tr p =
     (case try_block (window_stage (trace_key tr) t_now # metric_stages E t_now (trace_key tr) (station tr))
             \<lparr>fr_plotter = store_buffer (trace_key tr) merged (touch (station tr) now p),
              fr_trace = t2, fr_shared = shares_object old t2\<rparr> of
        (r, fr) \<Rightarrow> (r, fr_plotter fr))"
  using m by (simp add: on_data_trace[OF sub d1 d2] merge_stage_def store_buffer_def shares_object_def)

lemma on_data_trim_fails:
  assumes sub: "streams p (trace_key tr) = Some old"
    and d1: "detrend E ''linear'' tr = Inr t1" and d2: "detrend E ''demean'' t1 = Inr t2"
    and m: "stream_merge (old @ [t2]) = Inr merged"
    and w: "stream_trim (t_now - window_seconds p) t_now merged = Inl e"
  shows "on_data E now t_now tr p
           = (Some e, store_buffer (trace_key tr) merged (touch (station tr) now p))"
  using w by (simp add: on_data_merged[OF sub d1 d2 m] window_stage_def store_buffer_def touch_def Let_def)

lemma on_data_trimmed:
  assumes sub: "streams p (trace_key tr) = Some old"
    and d1: "detrend E ''linear'' tr = Inr t1" and d2: "detrend E ''demean'' t1 = Inr t2"
    and m: "stream_merge (old @ [t2]) = Inr merged"
    and w: "stream_trim (t_now - window_seconds p) t_now merged = Inr buf"
  shows "on_data E now t_now tr p =
     (case try_block (metric_stages E t_now (trace_key tr) (station tr))
             \<lparr>fr_plotter = store_buffer (trace_key tr) buf (touch (station tr) now p),
              fr_trace = (if shares_object old t2
                          then trim_in_stream (t_now - window_seconds p) t_now merged t2 else t2),
              fr_shared = (shares_object old t2 \<and>
                 data (if shares_object old t2
                       then trim_in_stream (t_now - window_seconds p) t_now merged t2 else t2) \<noteq> [])\<rparr> of
        (r, fr) \<Rightarrow> (r, fr_plotter fr))"
  using w by (simp add: on_data_merged[OF sub d1 d2 m] window_stage_def store_buffer_def touch_def Let_def)


lemma on_data_no_inventory:
  assumes sub: "streams p (trace_key tr) = Some old"
    and d1: "detrend E ''linear'' tr = Inr t1" and d2: "detrend E ''demean'' t1 = Inr t2"
    and m: "stream_merge (old @ [t2]) = Inr merged"
    and w: "stream_trim (t_now - window_seconds p) t_now merged = Inr buf"
    and i: "inventories p (station tr) = None"
  shows "on_data E now t_now tr p
           = (Some (KeyError (station tr)), store_buffer (trace_key tr) buf (touch (station tr) now p))"
  using i by (simp add: on_data_trimmed[OF sub d1 d2 m w] metric_stages_def correct_stage_def
      store_buffer_def touch_def)

lemma on_data_correction_fails:
  assumes sub: "streams p (trace_key tr) = Some old"
    and d1: "detrend E ''linear'' tr = Inr t1" and d2: "detrend E ''demean'' t1 = Inr t2"
    and m: "stream_merge (old @ [t2]) = Inr merged"
    and w: "stream_trim (t_now - window_seconds p) t_now merged = Inr buf"
    and i: "inventories p (station tr) = Some resp"
    and c: "remove_response E resp (if shares_object old t2
               then trim_in_stream (t_now - window_seconds p) t_now merged t2 else t2) = Inl e"
  shows "on_data E now t_now tr p
           = (Some e, store_buffer (trace_key tr) buf (touch (station tr) now p))"
  using i c by (simp add: on_data_trimmed[OF sub d1 d2 m w] metric_stages_def correct_stage_def
      store_buffer_def touch_def)

lemma on_data_all_stages:
  assumes sub: "streams p (trace_key tr) = Some old"
    and d1: "detrend E ''linear'' tr = Inr t1" and d2: "detrend E ''demean'' t1 = Inr t2"
    and m: "stream_merge (old @ [t2]) = Inr merged"
    and w: "stream_trim (t_now - window_seconds p) t_now merged = Inr buf"
    and i: "inventories p (station tr) = Some resp"
    and c: "remove_response E resp (if shares_object old t2
               then trim_in_stream (t_now - window_seconds p) t_now merged t2 else t2) = Inr t3"
    and t: "trace_trim True (t_now - window_seconds p) t_now t3 = Inr t4"
    and s: "slice (t_now - 10) t_now t4 = Inr recorte" and n: "data recorte \<noteq> []"
  shows "on_data E now t_now tr p =
     (fst (update_values (station tr) t_now recorte (current_values p)),
      (store_buffer (trace_key tr)
         (if shares_object old t2 \<and>
             data (trim_in_stream (t_now - window_seconds p) t_now merged t2) \<noteq> []
          then [t4] else buf)
         (touch (station tr) now p))
       \<lparr>current_values := snd (update_values (station tr) t_now recorte (current_values p))\<rparr>)"
  using i c t s n
  by (cases "update_values (station tr) t_now recorte (current_values p)")
     (simp add: on_data_trimmed[OF sub d1 d2 m w] metric_stages_def correct_stage_def
      trim_trace_stage_def metrics_stage_def sync_buffer_def store_buffer_def touch_def
      split: option.splits)

section \<open>The render tick on the liveness tables\<close>

lemma evaluate_liveness:
  "liveness_state (snd (evaluate c sta q)) k
     = (if k = sta \<and> timed_out c q sta then STALE else liveness_state q k)"
  by (auto simp add: evaluate_def liveness_state_def timed_out_def split: option.splits)

lemma evaluate_no_exception:
  "last_data_times q sta \<noteq> None \<Longrightarrow> fst (evaluate c sta q) = None"
  by (auto simp add: evaluate_def split: option.splits)

lemma read_station_no_exception:
  "connection_status q sta \<noteq> None \<Longrightarrow> streams q key \<noteq> None \<Longrightarrow> fst (read_station key sta q) = None"
  by (simp add: read_station_def)

lemma evaluate_covered: "covered q s \<Longrightarrow> covered (snd (evaluate c sta q)) s"
  by (auto simp add: evaluate_def covered_def split: option.splits prod.splits)

lemma read_station_covered: "covered q s \<Longrightarrow> covered (snd (read_station key sta q)) s"
  by (auto simp add: read_station_def covered_def split: prod.splits)

lemma evaluate_timed_out: "timed_out c (snd (evaluate c' sta q)) k = timed_out c q k"
  unfolding timed_out_def by (simp only: evaluate_last_data_times evaluate_data_timeout)

lemma read_station_timed_out: "timed_out c (snd (read_station key sta q)) k = timed_out c q k"
proof -
  have "last_data_times (snd (read_station key sta q)) = last_data_times q"
    and "data_timeout (snd (read_station key sta q)) = data_timeout q"
    by (rule read_station_keeps, simp)+
  then show ?thesis unfolding timed_out_def by (simp only:)
qed

lemma render_stations_liveness:
  fixes q :: "'inv plotter"
  assumes "list_all (covered q) sts"
  shows "fst (try_block (concat (map (render_station c) sts)) q) = None
    \<and> liveness_state (snd (try_block (concat (map (render_station c) sts)) q)) k
        = (if k \<in> station_code ` set sts \<and> timed_out c q k then STALE else liveness_state q k)"
  using assms
proof (induction sts arbitrary: q)
  case Nil
  show ?case by simp
next
  case (Cons s sts)
  obtain net sta loc cha where s: "s = (net, sta, loc, cha)" by (cases s) auto
  let ?key = "stream_key net sta loc cha"
  let ?q1 = "snd (evaluate c sta q)"
  let ?q2 = "snd (read_station ?key sta ?q1)"
  from Cons.prems s have cov: "covered q (net, sta, loc, cha)" and rest: "list_all (covered q) sts"
    by simp_all
  have "fst (evaluate c sta q) = None"
    using cov evaluate_no_exception[of q sta c] by (simp add: covered_def)
  then obtain q1 where e: "evaluate c sta q = (None, q1)" by (cases "evaluate c sta q") simp
  then have q1: "q1 = ?q1" by simp
  have cov1: "covered ?q1 (net, sta, loc, cha)" using cov by (simp add: evaluate_covered)
  have "fst (read_station ?key sta ?q1) = None"
    using cov1 read_station_no_exception[of ?q1 sta ?key] by (simp add: covered_def)
  then obtain q2 where r: "read_station ?key sta q1 = (None, q2)"
    unfolding q1 by (cases "read_station ?key sta ?q1") simp
  then have q2: "q2 = ?q2" by (simp add: q1)
  have rest2: "list_all (covered ?q2) sts"
    using rest by (simp add: list_all_iff read_station_covered evaluate_covered)
  have "try_block (concat (map (render_station c) (s # sts))) q
      = try_block (concat (map (render_station c) sts)) q2"
    by (simp add: s render_station_def e r)
  then have tb: "try_block (concat (map (render_station c) (s # sts))) q
      = try_block (concat (map (render_station c) sts)) ?q2"
    by (simp only: q2)
  have to: "timed_out c ?q2 k = timed_out c q k"
    by (simp add: read_station_timed_out evaluate_timed_out)
  have lv: "liveness_state ?q2 k = (if k = sta \<and> timed_out c q sta then STALE else liveness_state q k)"
    by (simp add: read_station_liveness evaluate_liveness)
  from Cons.IH[OF rest2] tb to lv show ?case
    by (auto simp add: s station_code_def)
qed

lemma update_plot_evaluates:
  assumes "tables_cover p"
  shows "fst (update_plot c p) = None"
    and "liveness_state (snd (update_plot c p)) k
        = (if k \<in> station_code ` set (stations p) \<and> timed_out c p k then STALE else liveness_state p k)"
  using render_stations_liveness[of p "stations p" c k] assms
  by (simp_all add: update_plot_def tables_cover_def)

lemma init_covers: "tables_cover (plotter_init E sts a h w r t)"
proof -
  have "covered (plotter_init E sts a h w r t) s" if "s \<in> set sts" for s
  proof -
    obtain net sta loc cha where s: "s = (net, sta, loc, cha)" by (cases s) auto
    have "map_of (map (\<lambda>(net, sta, loc, cha). (stream_key net sta loc cha, [])) sts)
            (stream_key net sta loc cha) \<noteq> None"
      using that unfolding s map_of_eq_None_iff
      by (auto simp add: image_iff intro!: bexI[where x = "(net, sta, loc, cha)"])
    with init_liveness[OF that, of E a h w r t] show ?thesis
      by (auto simp add: s covered_def station_code_def plotter_init_def)
  qed
  then show ?thesis by (simp add: tables_cover_def list_all_iff plotter_init_def)
qed

lemma stage_streams_dom:
  assumes "f \<in> set (buffer_stages E now t_now key sta @ metric_stages E t_now key sta)"
    and "streams (fr_plotter fr) k \<noteq> None"
  shows "streams (fr_plotter (snd (f fr))) k \<noteq> None"
  using assms
  by (auto simp add: buffer_stages_def metric_stages_def stage_defs store_buffer_def touch_def
      sync_buffer_def Let_def split: sum.splits option.splits prod.splits if_splits)

lemma on_data_streams_dom:
  assumes "streams p k \<noteq> None"
  shows "streams (snd (on_data E now t_now tr p)) k \<noteq> None"
proof (cases "streams p (trace_key tr) = None")
  case True
  with assms show ?thesis by (simp add: on_data_unsubscribed)
next
  case False
  let ?fs = "buffer_stages E now t_now (trace_key tr) (station tr)
             @ metric_stages E t_now (trace_key tr) (station tr)"
  let ?fr0 = "\<lparr>fr_plotter = p, fr_trace = tr, fr_shared = False\<rparr>"
  have "streams (fr_plotter (snd (try_block ?fs ?fr0))) k \<noteq> None"
    by (rule try_block_invariant[where P = "\<lambda>fr. streams (fr_plotter fr) k \<noteq> None"])
       (use assms in \<open>simp_all add: stage_streams_dom\<close>)
  with False show ?thesis by (simp add: snd_on_data)
qed

lemma on_data_covers:
  assumes "tables_cover p"
  shows "tables_cover (snd (on_data E now t_now tr p))"
proof -
  let ?q = "snd (on_data E now t_now tr p)"
  have "covered ?q s" if "covered p s" for s
  proof -
    obtain net sta loc cha where s: "s = (net, sta, loc, cha)" by (cases s) auto
    from that have l: "last_data_times p sta \<noteq> None" and c: "connection_status p sta \<noteq> None"
      and st: "streams p (stream_key net sta loc cha) \<noteq> None"
      by (simp_all add: s covered_def)
    have "last_data_times ?q sta \<noteq> None \<and> connection_status ?q sta \<noteq> None"
    proof (cases "sta = station tr \<and> streams p (trace_key tr) \<noteq> None")
      case True
      then show ?thesis using on_data_touch[of p tr E now t_now] by simp
    next
      case False
      then show ?thesis
        using l c on_data_liveness_other[of sta tr E now t_now p] on_data_unsubscribed[of p tr E now t_now]
        by auto
    qed
    with on_data_streams_dom[OF st] show ?thesis by (simp add: s covered_def)
  qed
  with assms show ?thesis by (simp add: tables_cover_def list_all_iff on_data_stations)
qed

lemma update_plot_covers:
  fixes p :: "'inv plotter"
  assumes "tables_cover p"
  shows "tables_cover (snd (update_plot c p))"
proof -
  have "covered (snd (update_plot c p)) s" if "covered p s" for s
    unfolding update_plot_def
  proof (rule try_block_invariant[where P = "\<lambda>q. covered q s"])
    fix f :: "'inv plotter \<Rightarrow> exn option \<times> 'inv plotter" and q :: "'inv plotter"
    assume mem: "f \<in> set (concat (map (render_station c) (stations p)))" and cq: "covered q s"
    from render_station_cases[OF mem] cq show "covered (snd (f q)) s"
      by (auto simp add: evaluate_covered read_station_covered)
  qed (rule that)
  moreover have "stations (snd (update_plot c p)) = stations p"
    by (rule update_plot_keeps) simp_all
  ultimately show ?thesis using assms by (simp add: tables_cover_def list_all_iff)
qed

lemma fold_max_abs:
  "fold (\<lambda>y m. max m \<bar>y\<bar>) ys (m0::real) = Max (insert m0 (abs ` set ys))"
proof (induction ys arbitrary: m0)
  case Nil
  then show ?case by simp
next
  case (Cons y ys)
  have "Max (insert (max m0 \<bar>y\<bar>) (abs ` set ys)) = Max (insert m0 (insert \<bar>y\<bar> (abs ` set ys)))"
    by (cases "set ys = {}") (simp_all add: max.assoc)
  with Cons.IH[of "max m0 \<bar>y\<bar>"] show ?case by simp
qed

lemma abs_max_Max:
  "xs \<noteq> [] \<Longrightarrow> abs_max xs = Inr (Max (abs ` set xs))"
  by (cases xs) (simp_all add: abs_max_def fold_max_abs)

lemma length_cumtrapz_from: "length (cumtrapz_from dx acc xs) = length xs - 1"
  by (induction dx acc xs rule: cumtrapz_from.induct) simp_all

lemma nth_cumtrapz_from:
  "i < length xs - 1 \<Longrightarrow>
     cumtrapz_from dx acc xs ! i = acc + (\<Sum>j\<le>i. dx * (xs ! j + xs ! Suc j) / 2)"
proof (induction dx acc xs arbitrary: i rule: cumtrapz_from.induct)
  case (1 dx acc x y xs)
  show ?case
  proof (cases i)
    case 0
    then show ?thesis by simp
  next
    case (Suc k)
    with "1.prems" have k: "k < length (y # xs) - 1" by simp
    have shift: "(\<Sum>j\<le>Suc k. dx * ((x # y # xs) ! j + (x # y # xs) ! Suc j) / 2)
        = dx * (x + y) / 2 + (\<Sum>j\<le>k. dx * ((y # xs) ! j + (y # xs) ! Suc j) / 2)"
      by (simp add: sum.atMost_Suc_shift del: sum.atMost_Suc)
    from "1.IH"[OF k] Suc show ?thesis
      by (simp only: shift) simp
  qed
qed simp_all

lemma length_cumtrapz: "length (cumtrapz dx xs) = length xs"
  by (cases xs) (simp_all add: cumtrapz_def length_cumtrapz_from)

lemma nth_cumtrapz:
  assumes "i < length xs"
  shows "cumtrapz dx xs ! i = (\<Sum>j<i. dx * (xs ! j + xs ! Suc j) / 2)"
proof (cases i)
  case 0
  with assms show ?thesis by (auto simp add: cumtrapz_def)
next
  case (Suc k)
  with assms have k: "k < length xs - 1" and ne: "xs \<noteq> []" by auto
  from nth_cumtrapz_from[OF k, of dx 0] Suc ne show ?thesis
    by (simp add: cumtrapz_def lessThan_Suc_atMost)
qed

lemma length_central: "length (central dx xs) = length xs - 2"
  by (induction dx xs rule: central.induct) simp_all

lemma nth_central:
  "i < length xs - 2 \<Longrightarrow> central dx xs ! i = (xs ! (i + 2) - xs ! i) / (2 * dx)"
proof (induction dx xs arbitrary: i rule: central.induct)
  case (1 dx x y z xs)
  then show ?case by (cases i) simp_all
qed simp_all

lemma gradient_Inr:
  assumes "2 \<le> length xs"
  shows "\<exists>g. gradient dx xs = Inr g \<and> length g = length xs
     \<and> g ! 0 = (xs ! 1 - xs ! 0) / dx
     \<and> g ! (length xs - 1) = (xs ! (length xs - 1) - xs ! (length xs - 2)) / dx
     \<and> (\<forall>i. 0 < i \<and> i < length xs - 1 \<longrightarrow> g ! i = (xs ! (i + 1) - xs ! (i - 1)) / (2 * dx))"
proof -
  let ?g = "[(xs ! 1 - xs ! 0) / dx] @ central dx xs @ [(last xs - last (butlast xs)) / dx]"
  have g: "gradient dx xs = Inr ?g" using assms by (simp add: gradient_def)
  have len: "length ?g = length xs" using assms by (simp add: length_central)
  have ne: "xs \<noteq> []" using assms by auto
  have "length (butlast xs) = length xs - 1" by simp
  with assms have ne2: "butlast xs \<noteq> []" by (metis One_nat_def Suc_1 Suc_le_eq length_0_conv less_numeral_extra(3) zero_less_diff)
  have l1: "last xs = xs ! (length xs - 1)" using ne by (simp add: last_conv_nth)
  have l2: "last (butlast xs) = xs ! (length xs - 2)"
    using ne2 assms by (simp add: last_conv_nth nth_butlast numeral_2_eq_2)
  have len1: "length ([(xs ! 1 - xs ! 0) / dx] @ central dx xs) = length xs - 1"
    using assms by (simp add: length_central)
  have "?g ! (length xs - 1) = (last xs - last (butlast xs)) / dx"
    using nth_append_length[of "[(xs ! 1 - xs ! 0) / dx] @ central dx xs" "(last xs - last (butlast xs)) / dx" "[]"]
    by (simp only: len1 append_assoc)
  then have last_g: "?g ! (length xs - 1) = (xs ! (length xs - 1) - xs ! (length xs - 2)) / dx"
    by (simp only: l1 l2)
  have inner: "?g ! i = (xs ! (i + 1) - xs ! (i - 1)) / (2 * dx)" if "0 < i" and "i < length xs - 1" for i
  proof -
    from that obtain k where k: "i = Suc k" by (cases i) auto
    with that have "k < length xs - 2" by simp
    with k show ?thesis
      by (simp add: nth_append length_central nth_central)
  qed
  show ?thesis
    using g len last_g inner by (intro exI[of _ ?g]) simp
qed

lemma metric_values_overwritten:
  "(r :: metric_values)\<lparr>vel := a, desp := b, acel := c, last_update := d\<rparr>
     = \<lparr>vel = a, desp = b, acel = c, last_update = d\<rparr>"
  by (cases r) simp

lemma update_values_eq:
  assumes g: "gradient (delta_t recorte) (data recorte) = Inr g" and ne: "data recorte \<noteq> []"
    and gne: "g \<noteq> []"
  shows "update_values sta t_now recorte cv =
     (None, cv(sta \<mapsto>
        \<lparr>vel = Max (abs ` set (data recorte)) * 1000000,
         desp = Max (abs ` set (cumtrapz (delta_t recorte) (data recorte))) * 1000000,
         acel = Max (abs ` set g) * 1000000,
         last_update = Some t_now\<rparr>))"
proof -
  have c: "cumtrapz (delta_t recorte) (data recorte) \<noteq> []"
    using ne length_cumtrapz[of "delta_t recorte" "data recorte"] by auto
  show ?thesis
    by (simp add: update_values_def g abs_max_Max[OF ne] abs_max_Max[OF c] abs_max_Max[OF gne]
        cv_lookup_def Let_def metric_values_overwritten)
qed

section \<open>The constructor's \<open>stationxml_paths\<close> argument\<close>

text \<open>
  Claim C10. The \<open>stationxml_paths\<close> argument of the constructor has no effect: for any
  two values of it the constructed plotter is the same, its path table is the hard-coded
  one, its inventories are loaded from that table, and every run of packets and render
  ticks from the two plotters ends in the same state.
\<close>

theorem stationxml_paths_argument_ignored:
  "plotter_init E sts paths1 host window refresh timeout
     = plotter_init E sts paths2 host window refresh timeout
   \<and> stationxml_paths (plotter_init E sts paths1 host window refresh timeout) = hardcoded_paths
   \<and> inventories (plotter_init E sts paths1 host window refresh timeout)
       = load_inventories E hardcoded_paths sts
   \<and> run E evs (plotter_init E sts paths1 host window refresh timeout)
       = run E evs (plotter_init E sts paths2 host window refresh timeout)"
  by (simp add: plotter_init_def)

section \<open>A station without response metadata\<close>

lemma example_no_inventory: "inventories example_plotter ''UIS05'' = None"
  by (simp add: example_plotter_def plotter_init_def load_inventories_def load_one_def
      hardcoded_paths_def station_code_def example_env_def)

lemma example_subscribed: "streams example_plotter (trace_key (example_trace ''UX'' ''UIS05'' 1 0 [1, 2])) \<noteq> None"
  by (simp add: example_plotter_def plotter_init_def trace_key_def example_trace_def stream_key_def)

lemma example_buffer_stages_pass: "fst (try_block (buffer_stages example_env 5 6 (trace_key (example_trace ''UX'' ''UIS05'' 1 0 [1, 2])) ''UIS05'')
                   \<lparr>fr_plotter = example_plotter, fr_trace = example_trace ''UX'' ''UIS05'' 1 0 [1, 2], fr_shared = False\<rparr>) = None"
  by code_simp

text \<open>
  Claim C1. Let station \<open>X\<close> have no response inventory. Then a sample block of \<open>X\<close>
  leaves the whole table of metric values as it was (so the values of \<open>X\<close> are frozen, no
  raw count is written, and no other station is touched); for a subscribed stream the call
  ends in an exception, and when the buffer stages pass it is the \<open>KeyError\<close> raised by
  \<open>inventories[station]\<close>, the program's form of a missing response; and after any later
  sequence of packets and render ticks the values of \<open>X\<close> still read the same and \<open>X\<close> still
  has no inventory.
\<close>

theorem response_missing_freezes_metrics:
  assumes "inventories p X = None"
  shows "(station tr = X \<longrightarrow> current_values (snd (on_data E now t_now tr p)) = current_values p)
    \<and> (station tr = X \<and> streams p (trace_key tr) \<noteq> None \<longrightarrow> fst (on_data E now t_now tr p) \<noteq> None)
    \<and> (station tr = X \<and> streams p (trace_key tr) \<noteq> None
         \<and> fst (try_block (buffer_stages E now t_now (trace_key tr) X)
                   \<lparr>fr_plotter = p, fr_trace = tr, fr_shared = False\<rparr>) = None
        \<longrightarrow> fst (on_data E now t_now tr p) = Some (KeyError X))
    \<and> cv_lookup (current_values (run E evs p)) X = cv_lookup (current_values p) X
    \<and> inventories (run E evs p) X = None"
proof (intro conjI impI)
  assume "station tr = X"
  with assms show "current_values (snd (on_data E now t_now tr p)) = current_values p"
    by (simp add: on_data_missing_inventory_current_values)
next
  assume a: "station tr = X \<and> streams p (trace_key tr) \<noteq> None"
  with assms have "inventories p (station tr) = None" and "streams p (trace_key tr) \<noteq> None" by simp_all
  from on_data_missing_inventory[OF this, of E now t_now]
  show "fst (on_data E now t_now tr p) \<noteq> None"
    by (simp split: prod.splits option.splits)
next
  assume a: "station tr = X \<and> streams p (trace_key tr) \<noteq> None
         \<and> fst (try_block (buffer_stages E now t_now (trace_key tr) X)
                   \<lparr>fr_plotter = p, fr_trace = tr, fr_shared = False\<rparr>) = None"
  with assms have "inventories p (station tr) = None" and "streams p (trace_key tr) \<noteq> None" by simp_all
  from on_data_missing_inventory[OF this, of E now t_now] a
  show "fst (on_data E now t_now tr p) = Some (KeyError X)"
    by (auto split: prod.splits option.splits)
next
  from run_missing_inventory[OF assms]
  show "cv_lookup (current_values (run E evs p)) X = cv_lookup (current_values p) X" by simp
next
  from run_missing_inventory[OF assms] show "inventories (run E evs p) X = None" by simp
qed


theorem response_missing_freezes_metrics_witness:
  "inventories example_plotter ''UIS05'' = None
   \<and> fst (on_data example_env 5 6 (example_trace ''UX'' ''UIS05'' 1 0 [1, 2]) example_plotter)
       = Some (KeyError ''UIS05'')
   \<and> current_values (snd (on_data example_env 5 6 (example_trace ''UX'' ''UIS05'' 1 0 [1, 2]) example_plotter))
       = current_values example_plotter
   \<and> cv_lookup (current_values (run example_env
         [OnData 5 6 (example_trace ''UX'' ''UIS05'' 1 0 [1, 2]), UpdatePlot 7,
          OnData 8 9 (example_trace ''UX'' ''UIS05'' 1 3 [4, 5])] example_plotter)) ''UIS05''
       = default_values"
  using response_missing_freezes_metrics[OF example_no_inventory,
      of "example_trace ''UX'' ''UIS05'' 1 0 [1, 2]" example_env 5 6
         "[OnData 5 6 (example_trace ''UX'' ''UIS05'' 1 0 [1, 2]), UpdatePlot 7,
           OnData 8 9 (example_trace ''UX'' ''UIS05'' 1 3 [4, 5])]"]
    example_no_inventory example_subscribed example_buffer_stages_pass
  by (simp add: example_trace_def cv_lookup_def example_plotter_def plotter_init_def)

section \<open>The liveness state machine\<close>

text \<open>
  Claim C5. A configured station starts UNKNOWN, and from \<open>__init__\<close> on the tables hold
  every configured station and stream (\<open>tables_cover\<close>), a property that packets and
  render ticks keep. The touch of \<open>on_data\<close> (for a subscribed stream) records the clock
  reading as the last sample time and makes the station CONNECTED, whatever its state was
  (so also from STALE). A render tick \<open>update_plot\<close> raises nothing and evaluates every
  configured station: the station is STALE afterwards when \<open>now - last_sample_time > timeout\<close>
  and keeps its state otherwise, so a CONNECTED station with last sample time \<open>t0\<close> becomes
  STALE exactly when \<open>now - t0 > timeout\<close>; after a touch at \<open>t0\<close> the render tick at
  \<open>t0 + timeout + 1\<close> gives STALE and the one at \<open>t0 + timeout - 1\<close> gives CONNECTED. The
  same holds of the single evaluation \<open>evaluate\<close> (lines 275-276) that the tick runs for
  each station. Nothing else changes the liveness: the evaluation leaves the last sample
  time, the states that are not CONNECTED and the other stations alone; a packet of an
  unsubscribed stream changes nothing at all; a packet leaves the other stations alone; and
  \<open>update_plot\<close> changes a state only from CONNECTED to STALE, on a timeout.
\<close>

theorem liveness_state_machine:
  "(s \<in> set sts \<longrightarrow> liveness_state (plotter_init E sts a h w r t) (station_code s) = UNKNOWN)
   \<and> tables_cover (plotter_init E sts a h w r t)
   \<and> (streams p (trace_key tr) \<noteq> None \<longrightarrow>
        last_data_times (snd (on_data E now t_now tr p)) (station tr) = Some (Some now)
        \<and> liveness_state (snd (on_data E now t_now tr p)) (station tr) = CONNECTED)
   \<and> (tables_cover p \<longrightarrow>
        fst (update_plot c p) = None
        \<and> liveness_state (snd (update_plot c p)) k
            = (if k \<in> station_code ` set (stations p) \<and> timed_out c p k then STALE
               else liveness_state p k))
   \<and> (tables_cover p \<and> s \<in> set (stations p)
       \<and> last_data_times p (station_code s) = Some (Some t0)
       \<and> liveness_state p (station_code s) = CONNECTED \<longrightarrow>
        liveness_state (snd (update_plot c p)) (station_code s)
          = (if c - t0 > data_timeout p then STALE else CONNECTED))
   \<and> (tables_cover p \<and> (network tr, station tr, location tr, channel tr) \<in> set (stations p) \<longrightarrow>
        liveness_state (snd (update_plot (now + data_timeout p + 1)
                               (snd (on_data E now t_now tr p)))) (station tr) = STALE
        \<and> liveness_state (snd (update_plot (now + data_timeout p - 1)
                                 (snd (on_data E now t_now tr p)))) (station tr) = CONNECTED)
   \<and> (tables_cover p \<longrightarrow>
        tables_cover (snd (on_data E now t_now tr p)) \<and> tables_cover (snd (update_plot c p)))
   \<and> (last_data_times p sta = Some (Some t0) \<and> liveness_state p sta = CONNECTED \<longrightarrow>
        liveness_state (snd (evaluate c sta p)) sta
          = (if c - t0 > data_timeout p then STALE else CONNECTED))
   \<and> last_data_times (snd (evaluate c sta p)) = last_data_times p
   \<and> (liveness_state p sta \<noteq> CONNECTED \<longrightarrow>
        liveness_state (snd (evaluate c sta p)) sta = liveness_state p sta)
   \<and> (k \<noteq> sta \<longrightarrow> liveness_state (snd (evaluate c sta p)) k = liveness_state p k)
   \<and> (streams p (trace_key tr) = None \<longrightarrow> snd (on_data E now t_now tr p) = p)
   \<and> (k \<noteq> station tr \<longrightarrow>
        last_data_times (snd (on_data E now t_now tr p)) k = last_data_times p k
        \<and> liveness_state (snd (on_data E now t_now tr p)) k = liveness_state p k)
   \<and> last_data_times (snd (update_plot c p)) = last_data_times p
   \<and> (liveness_state (snd (update_plot c p)) k = liveness_state p k
       \<or> (liveness_state p k = CONNECTED \<and> liveness_state (snd (update_plot c p)) k = STALE
           \<and> (\<exists>u. last_data_times p k = Some (Some u) \<and> c - u > data_timeout p)))"
proof -
  have tick: "fst (update_plot c p) = None
        \<and> liveness_state (snd (update_plot c p)) k
            = (if k \<in> station_code ` set (stations p) \<and> timed_out c p k then STALE
               else liveness_state p k)"
    if "tables_cover p"
    using update_plot_evaluates(1)[OF that, of c] update_plot_evaluates(2)[OF that, of c k] by simp
  have connected: "liveness_state (snd (update_plot c p)) (station_code s)
          = (if c - t0 > data_timeout p then STALE else CONNECTED)"
    if "tables_cover p" and "s \<in> set (stations p)"
      and "last_data_times p (station_code s) = Some (Some t0)"
      and "liveness_state p (station_code s) = CONNECTED"
    using update_plot_evaluates(2)[OF that(1), of c "station_code s"] that(2-4)
    by (simp add: timed_out_def)
  have scenario: "liveness_state (snd (update_plot (now + data_timeout p + 1)
                               (snd (on_data E now t_now tr p)))) (station tr) = STALE
        \<and> liveness_state (snd (update_plot (now + data_timeout p - 1)
                                 (snd (on_data E now t_now tr p)))) (station tr) = CONNECTED"
    if cov: "tables_cover p" and mem: "(network tr, station tr, location tr, channel tr) \<in> set (stations p)"
  proof -
    let ?q = "snd (on_data E now t_now tr p)"
    from cov mem have "covered p (network tr, station tr, location tr, channel tr)"
      by (simp add: tables_cover_def list_all_iff)
    then have sub: "streams p (trace_key tr) \<noteq> None" by (simp add: covered_def trace_key_def)
    have l: "last_data_times ?q (station tr) = Some (Some now)"
      and cn: "liveness_state ?q (station tr) = CONNECTED"
      using sub by (simp_all add: on_data_touch on_data_connected)
    have d: "data_timeout ?q = data_timeout p" by (rule on_data_data_timeout)
    have st: "stations ?q = stations p" by (rule on_data_stations)
    have memq: "station tr \<in> station_code ` set (stations ?q)"
      unfolding st using mem by (force simp add: station_code_def)
    have covq: "tables_cover ?q" by (rule on_data_covers[OF cov])
    have "timed_out (now + data_timeout p + 1) ?q (station tr)"
      and "\<not> timed_out (now + data_timeout p - 1) ?q (station tr)"
      by (simp_all add: timed_out_def l d)
    with update_plot_evaluates(2)[OF covq, of "now + data_timeout p + 1" "station tr"]
         update_plot_evaluates(2)[OF covq, of "now + data_timeout p - 1" "station tr"] memq cn
    show ?thesis by simp
  qed
  have fragment: "liveness_state (snd (evaluate c sta p)) sta
          = (if c - t0 > data_timeout p then STALE else CONNECTED)"
    if "last_data_times p sta = Some (Some t0)" and "liveness_state p sta = CONNECTED"
    using evaluate_connected[OF that, of c] by simp
  show ?thesis
    using tick connected scenario fragment update_plot_liveness[of c p k]
    by (simp add: init_unknown init_covers on_data_touch on_data_connected
        evaluate_last_data_times evaluate_not_connected evaluate_other on_data_unsubscribed
        on_data_liveness_other on_data_liveness_state_other update_plot_last_data_times
        on_data_covers update_plot_covers)
qed

theorem liveness_state_machine_witness:
  "tables_cover example_plotter
   \<and> (''UX'', ''UIS09'', ''00'', ''EHZ'') \<in> set (stations example_plotter)
   \<and> liveness_state example_plotter ''UIS09'' = UNKNOWN
   \<and> liveness_state (snd (on_data example_env 100 101 (example_trace ''UX'' ''UIS09'' 1 0 [1, 2]) example_plotter)) ''UIS09''
       = CONNECTED
   \<and> liveness_state (snd (update_plot 131
         (snd (on_data example_env 100 101 (example_trace ''UX'' ''UIS09'' 1 0 [1, 2]) example_plotter)))) ''UIS09''
       = STALE
   \<and> liveness_state (snd (update_plot 129
         (snd (on_data example_env 100 101 (example_trace ''UX'' ''UIS09'' 1 0 [1, 2]) example_plotter)))) ''UIS09''
       = CONNECTED"
  using liveness_state_machine[where s = "(''UX'', ''UIS09'', ''00'', ''EHZ'')"
      and sts = "[(''UX'', ''UIS09'', ''00'', ''EHZ''), (''UX'', ''UIS05'', ''00'', ''EHZ'')]"
      and E = example_env and a = Map.empty and h = "''192.168.84.112''" and w = 150 and r = 500 and t = 30
      and p = example_plotter and tr = "example_trace ''UX'' ''UIS09'' 1 0 [1, 2]"
      and now = 100 and t_now = 101]
  by (simp add: example_plotter_def plotter_init_def station_code_def trace_key_def stream_key_def
      example_trace_def)

section \<open>The key of the per-station state\<close>

lemma two_network_subscribed:
  "streams two_network_plotter (trace_key (example_trace ''UX'' ''UIS09'' 1 98 [3, -4, 1])) \<noteq> None"
  by (simp add: two_network_plotter_def plotter_init_def trace_key_def example_trace_def stream_key_def)

lemma on_data_snapshot_other:
  "station_code s \<noteq> station tr \<Longrightarrow>
     snapshot_of (snd (on_data E now t_now tr p)) s = snapshot_of p s"
  using on_data_current_values_other[of "station_code s" tr E now t_now p]
  by (simp add: snapshot_of_def cv_lookup_def)

text \<open>
  Claim C9 says that two streams with the same station code in different networks have
  distinct per-station state. The tables are keyed by the station code alone: with UX.UIS09
  and ZZ.UIS09 configured, one packet of UX.UIS09 makes ZZ.UIS09 connected and gives it
  metric values, although no packet of ZZ.UIS09 has arrived.
\<close>

theorem station_state_keyed_by_network_counterexample:
  "station_code (''UX'', ''UIS09'', ''00'', ''EHZ'') = station (example_trace ''UX'' ''UIS09'' 1 98 [3, -4, 1])
   \<and> liveness_of two_network_plotter (''ZZ'', ''UIS09'', ''00'', ''EHZ'') = (Some None, Some False)
   \<and> snapshot_of two_network_plotter (''ZZ'', ''UIS09'', ''00'', ''EHZ'') = default_values
   \<and> liveness_of (snd (on_data example_env 100 101 (example_trace ''UX'' ''UIS09'' 1 98 [3, -4, 1])
                          two_network_plotter)) (''ZZ'', ''UIS09'', ''00'', ''EHZ'')
       = (Some (Some 100), Some True)
   \<and> snapshot_of (snd (on_data example_env 100 101 (example_trace ''UX'' ''UIS09'' 1 98 [3, -4, 1])
                          two_network_plotter)) (''ZZ'', ''UIS09'', ''00'', ''EHZ'')
       = \<lparr>vel = 4000000, desp = 1500000, acel = 2000000, last_update = Some 101\<rparr>"
proof -
  have "station (example_trace ''UX'' ''UIS09'' 1 98 [3, -4, 1]) = ''UIS09''"
    by (simp add: example_trace_def)
  with on_data_touch[OF two_network_subscribed, of example_env 100 101]
  have "liveness_of (snd (on_data example_env 100 101 (example_trace ''UX'' ''UIS09'' 1 98 [3, -4, 1])
                          two_network_plotter)) (''ZZ'', ''UIS09'', ''00'', ''EHZ'')
       = (Some (Some 100), Some True)"
    by (simp add: liveness_of_def station_code_def)
  moreover have "snapshot_of (snd (on_data example_env 100 101 (example_trace ''UX'' ''UIS09'' 1 98 [3, -4, 1])
                          two_network_plotter)) (''ZZ'', ''UIS09'', ''00'', ''EHZ'')
       = \<lparr>vel = 4000000, desp = 1500000, acel = 2000000, last_update = Some 101\<rparr>"
    by code_simp
  moreover have "liveness_of two_network_plotter (''ZZ'', ''UIS09'', ''00'', ''EHZ'') = (Some None, Some False)"
    by (simp add: liveness_of_def station_code_def two_network_plotter_def plotter_init_def)
  moreover have "snapshot_of two_network_plotter (''ZZ'', ''UIS09'', ''00'', ''EHZ'') = default_values"
    by (simp add: snapshot_of_def cv_lookup_def two_network_plotter_def plotter_init_def)
  ultimately show ?thesis
    by (simp add: station_code_def example_trace_def)
qed

text \<open>
  Claim C9, amended. The per-station liveness and metric state is indexed by the station
  code alone: tuples with the same station code read the same liveness entry and the same
  metric snapshot, whatever their network, location and channel; a packet of a subscribed
  stream touches the liveness of every tuple with its station code; tuples with another
  station code keep their liveness and their snapshot; and a render tick leaves the last
  sample time and the snapshot of every tuple as they were.
\<close>

theorem station_state_keyed_by_station_code:
  "(station_code s1 = station_code s2 \<longrightarrow>
      liveness_of p s1 = liveness_of p s2 \<and> snapshot_of p s1 = snapshot_of p s2)
   \<and> (station_code s = station tr \<and> streams p (trace_key tr) \<noteq> None \<longrightarrow>
        liveness_of (snd (on_data E now t_now tr p)) s = (Some (Some now), Some True))
   \<and> (station_code s \<noteq> station tr \<longrightarrow>
        liveness_of (snd (on_data E now t_now tr p)) s = liveness_of p s
        \<and> snapshot_of (snd (on_data E now t_now tr p)) s = snapshot_of p s)
   \<and> fst (liveness_of (snd (update_plot c p)) s) = fst (liveness_of p s)
   \<and> snapshot_of (snd (update_plot c p)) s = snapshot_of p s"
  by (simp add: liveness_of_def snapshot_of_def on_data_touch on_data_liveness_other
      on_data_snapshot_other[unfolded snapshot_of_def] update_plot_last_data_times
      update_plot_cv_lookup)

theorem station_state_keyed_by_station_code_witness:
  "station_code (''ZZ'', ''UIS09'', ''00'', ''EHZ'') = station (example_trace ''UX'' ''UIS09'' 1 98 [3, -4, 1])
   \<and> streams two_network_plotter (trace_key (example_trace ''UX'' ''UIS09'' 1 98 [3, -4, 1])) \<noteq> None
   \<and> liveness_of (snd (on_data example_env 100 101 (example_trace ''UX'' ''UIS09'' 1 98 [3, -4, 1])
                          two_network_plotter)) (''ZZ'', ''UIS09'', ''00'', ''EHZ'')
       = (Some (Some 100), Some True)
   \<and> station_code (''UX'', ''UIS05'', ''00'', ''EHZ'') \<noteq> station (example_trace ''UX'' ''UIS09'' 1 98 [3, -4, 1])
   \<and> liveness_of (snd (on_data example_env 100 101 (example_trace ''UX'' ''UIS09'' 1 98 [3, -4, 1])
                          example_plotter)) (''UX'', ''UIS05'', ''00'', ''EHZ'')
       = liveness_of example_plotter (''UX'', ''UIS05'', ''00'', ''EHZ'')"
  using station_state_keyed_by_station_code[where s = "(''ZZ'', ''UIS09'', ''00'', ''EHZ'')"
      and tr = "example_trace ''UX'' ''UIS09'' 1 98 [3, -4, 1]" and p = two_network_plotter
      and E = example_env and now = 100 and t_now = 101]
    station_state_keyed_by_station_code[where s = "(''UX'', ''UIS05'', ''00'', ''EHZ'')"
      and tr = "example_trace ''UX'' ''UIS09'' 1 98 [3, -4, 1]" and p = example_plotter
      and E = example_env and now = 100 and t_now = 101]
    two_network_subscribed
  by (simp add: station_code_def example_trace_def)

section \<open>Construction with a station that has no response metadata\<close>

lemma fold_load_one:
  "fold (load_one E paths) xs m sta =
     (if sta \<in> set xs
      then (case load_one E paths sta Map.empty sta of Some i \<Rightarrow> Some i | None \<Rightarrow> m sta)
      else m sta)"
proof (induction xs arbitrary: m)
  case Nil
  then show ?case by simp
next
  case (Cons x xs)
  have one: "load_one E paths x m s =
      (if s = x then (case load_one E paths s Map.empty s of Some i \<Rightarrow> Some i | None \<Rightarrow> m s)
       else m s)" for s
    by (auto simp add: load_one_def split: option.splits sum.splits)
  show ?case
    by (simp add: Cons.IH one split: option.splits)
qed

lemma load_one_empty:
  "load_one E paths sta Map.empty sta = Some i \<longleftrightarrow>
     (\<exists>path. paths sta = Some path \<and> path \<noteq> [] \<and> path_exists E path \<and> read_inventory E path = Inr i)"
  by (auto simp add: load_one_def split: option.splits sum.splits)

lemma load_inventories_Some:
  "load_inventories E paths sts sta = Some i \<longleftrightarrow>
     (sta \<in> station_code ` set sts \<and>
      (\<exists>path. paths sta = Some path \<and> path \<noteq> [] \<and> path_exists E path \<and> read_inventory E path = Inr i))"
proof -
  have "load_inventories E paths sts sta =
      (if sta \<in> station_code ` set sts then load_one E paths sta Map.empty sta else None)"
    by (simp add: load_inventories_def fold_load_one split: option.splits)
  then show ?thesis
    using load_one_empty[of E paths sta i] by auto
qed

lemma example_start:
  "start example_plotter = Some [(''UX'', ''UIS09'', ''EHZ''), (''UX'', ''UIS05'', ''EHZ'')]"
  by (simp add: start_def example_plotter_def plotter_init_def)

text \<open>
  Claim C6 says that a selection with a station lacking response metadata is rejected
  before ingestion starts. In the example installation the StationXML file of UIS05 is
  absent: the plotter is constructed all the same, \<open>start\<close> selects the stream of UIS05,
  and its first packet is processed (the station becomes connected and its buffer is
  filled to the window) until \<open>inventories[station]\<close> raises inside \<open>on_data\<close>.
\<close>

theorem missing_response_fails_fast_counterexample:
  "inventories example_plotter ''UIS05'' = None
   \<and> start example_plotter = Some [(''UX'', ''UIS09'', ''EHZ''), (''UX'', ''UIS05'', ''EHZ'')]
   \<and> fst (on_data example_env 5 6 (example_trace ''UX'' ''UIS05'' 1 0 [1, 2]) example_plotter)
       = Some (KeyError ''UIS05'')
   \<and> connection_status (snd (on_data example_env 5 6 (example_trace ''UX'' ''UIS05'' 1 0 [1, 2]) example_plotter)) ''UIS05''
       = Some True
   \<and> map_option (map npts)
         (streams (snd (on_data example_env 5 6 (example_trace ''UX'' ''UIS05'' 1 0 [1, 2]) example_plotter))
            ''UX.UIS05.00.EHZ'')
       = Some [151]"
proof -
  have "fst (on_data example_env 5 6 (example_trace ''UX'' ''UIS05'' 1 0 [1, 2]) example_plotter)
       = Some (KeyError ''UIS05'')"
    by code_simp
  moreover have "connection_status (snd (on_data example_env 5 6 (example_trace ''UX'' ''UIS05'' 1 0 [1, 2]) example_plotter)) ''UIS05''
       = Some True"
    by code_simp
  moreover have "map_option (map npts)
         (streams (snd (on_data example_env 5 6 (example_trace ''UX'' ''UIS05'' 1 0 [1, 2]) example_plotter))
            ''UX.UIS05.00.EHZ'')
       = Some [151]"
    by code_simp
  ultimately show ?thesis
    using example_no_inventory example_start by simp
qed

text \<open>
  Claim C6, amended. Construction and \<open>start\<close> never fail on account of response
  metadata. A station gets an inventory exactly when it is configured, the hard-coded table
  has a non-empty path for it, the file exists and \<open>read_inventory\<close> succeeds; any other
  station is reported on the console and gets no entry. \<open>start\<close> selects every configured
  stream, whatever the inventories are, and refuses only an empty station list.
\<close>

theorem construction_ignores_missing_response:
  "(inventories (plotter_init E sts a h w r t) sta = Some i \<longleftrightarrow>
      (sta \<in> station_code ` set sts \<and>
       (\<exists>path. hardcoded_paths sta = Some path \<and> path \<noteq> [] \<and> path_exists E path
               \<and> read_inventory E path = Inr i)))
   \<and> stations (plotter_init E sts a h w r t) = sts
   \<and> (sts \<noteq> [] \<longrightarrow>
        start (plotter_init E sts a h w r t) = Some (map (\<lambda>(net, sta, loc, cha). (net, sta, cha)) sts))
   \<and> (sts = [] \<longrightarrow> start (plotter_init E sts a h w r t) = None)"
  by (simp add: plotter_init_def start_def load_inventories_Some)

theorem construction_ignores_missing_response_witness:
  "[(''UX'', ''UIS09'', ''00'', ''EHZ''), (''UX'', ''UIS05'', ''00'', ''EHZ'')] \<noteq> ([] :: station_tuple list)
   \<and> start example_plotter = Some [(''UX'', ''UIS09'', ''EHZ''), (''UX'', ''UIS05'', ''EHZ'')]
   \<and> inventories example_plotter ''UIS09'' = Some ()
   \<and> inventories example_plotter ''UIS05'' = None"
  using construction_ignores_missing_response[where
      sts = "[(''UX'', ''UIS09'', ''00'', ''EHZ''), (''UX'', ''UIS05'', ''00'', ''EHZ'')]"
      and E = example_env and a = Map.empty and h = "''192.168.84.112''" and w = 150 and r = 500
      and t = 30 and sta = "''UIS09''" and i = "()"]
    example_no_inventory
  by (simp add: example_plotter_def station_code_def hardcoded_paths_def example_env_def)

section \<open>The order of the ingestion steps\<close>

text \<open>
  Claim C2 puts the liveness touch after append, merge and trim. \<open>on_data\<close> touches first.
  The difference shows when a buffer stage raises: a packet whose sampling rate differs from
  the buffered trace makes \<open>merge\<close> raise; \<open>on_data\<close> has then already recorded the arrival
  time 103, while the order of the claim leaves the last sample time at 100.
\<close>

theorem touch_after_trim_counterexample:
  "fst (on_data example_env 103 104 odd_rate_packet after_first_packet) = Some rate_mismatch
   \<and> last_data_times (snd (on_data example_env 103 104 odd_rate_packet after_first_packet)) ''UIS09''
       = Some (Some 103)
   \<and> fst (on_sample_spec_order example_env 103 104 odd_rate_packet after_first_packet)
       = Some rate_mismatch
   \<and> last_data_times (snd (on_sample_spec_order example_env 103 104 odd_rate_packet after_first_packet)) ''UIS09''
       = Some (Some 100)"
proof -
  have "fst (on_data example_env 103 104 odd_rate_packet after_first_packet) = Some rate_mismatch"
    by code_simp
  moreover have "last_data_times (snd (on_data example_env 103 104 odd_rate_packet after_first_packet)) ''UIS09''
       = Some (Some 103)"
    by code_simp
  moreover have "fst (on_sample_spec_order example_env 103 104 odd_rate_packet after_first_packet)
       = Some rate_mismatch"
    by code_simp
  moreover have "last_data_times (snd (on_sample_spec_order example_env 103 104 odd_rate_packet after_first_packet)) ''UIS09''
       = Some (Some 100)"
    by code_simp
  ultimately show ?thesis by simp
qed

lemma first_packet_subscribed: "streams short_window_plotter (trace_key first_packet) = Some []"
  by (simp add: short_window_plotter_def plotter_init_def trace_key_def first_packet_def
      example_trace_def stream_key_def)

lemma first_packet_detrend:
  "detrend example_env ''linear'' first_packet = Inr first_packet"
  "detrend example_env ''demean'' first_packet = Inr first_packet"
  by (simp_all add: example_env_def)

lemma first_packet_merge: "stream_merge ([] @ [first_packet]) = Inr [first_packet]"
  by code_simp

lemma first_packet_shares: "shares_object [] first_packet"
  by code_simp

lemma first_packet_window:
  "trim_in_stream (101 - 12) 101 [first_packet] first_packet
     = example_trace ''UX'' ''UIS09'' 1 89 [0, 0, 0, 0, 0, 0, 0, 0, 0, 3, -4, 1, 0]"
  by code_simp

lemma first_packet_trim:
  "stream_trim (101 - 12) 101 [first_packet]
     = Inr [example_trace ''UX'' ''UIS09'' 1 89 [0, 0, 0, 0, 0, 0, 0, 0, 0, 3, -4, 1, 0]]"
  by code_simp

lemma first_packet_inventory: "inventories short_window_plotter ''UIS09'' = Some ()"
  by (simp add: short_window_plotter_def plotter_init_def load_inventories_def load_one_def
      hardcoded_paths_def station_code_def example_env_def)

lemma first_packet_trace_trim:
  "trace_trim True (101 - 12) 101 (example_trace ''UX'' ''UIS09'' 1 89 [0, 0, 0, 0, 0, 0, 0, 0, 0, 3, -4, 1, 0])
     = Inr (example_trace ''UX'' ''UIS09'' 1 89 [0, 0, 0, 0, 0, 0, 0, 0, 0, 3, -4, 1, 0])"
  by code_simp

lemma first_packet_slice:
  "slice (101 - 10) 101 (example_trace ''UX'' ''UIS09'' 1 89 [0, 0, 0, 0, 0, 0, 0, 0, 0, 3, -4, 1, 0])
     = Inr (example_trace ''UX'' ''UIS09'' 1 91 [0, 0, 0, 0, 0, 0, 0, 3, -4, 1, 0])"
  by code_simp

lemma first_packet_values:
  "fst (update_values ''UIS09'' 101 (example_trace ''UX'' ''UIS09'' 1 91 [0, 0, 0, 0, 0, 0, 0, 3, -4, 1, 0]) Map.empty) = None"
  by code_simp

text \<open>
  Claim C2, amended. For a subscribed stream key and an incoming block, \<open>on_data\<close> performs
  the liveness touch first, then the two detrend calls, append, merge, trim of the buffer,
  response correction, trim of the corrected trace, the 10-second slice and the metric
  update, in that order, and stops at the first step that raises. So the touch holds in
  every outcome; a failing detrend leaves only the touch; a failing merge leaves the touch
  and the appended, unmerged buffer; a failing trim leaves the merged buffer; a missing
  inventory or a failing response removal leaves the trimmed buffer and no new values; and
  when every step passes the values are those of \<open>update_values\<close> on the slice of the
  corrected trace. The corrected trace is the window-trimmed one, and the buffer ends up
  holding it, when the buffer's trace is the incoming object itself.
\<close>

theorem ingestion_order:
  assumes sub: "streams p (trace_key tr) = Some old"
  shows
   "last_data_times (snd (on_data E now t_now tr p)) (station tr) = Some (Some now)
    \<and> connection_status (snd (on_data E now t_now tr p)) (station tr) = Some True
    \<and> (detrend E ''linear'' tr = Inl e \<longrightarrow>
          on_data E now t_now tr p = (Some e, touch (station tr) now p))
    \<and> (detrend E ''linear'' tr = Inr t1 \<and> detrend E ''demean'' t1 = Inl e \<longrightarrow>
          on_data E now t_now tr p = (Some e, touch (station tr) now p))
    \<and> (detrend E ''linear'' tr = Inr t1 \<and> detrend E ''demean'' t1 = Inr t2
        \<and> stream_merge (old @ [t2]) = Inl e \<longrightarrow>
          on_data E now t_now tr p
            = (Some e, store_buffer (trace_key tr) (old @ [t2]) (touch (station tr) now p)))
    \<and> (detrend E ''linear'' tr = Inr t1 \<and> detrend E ''demean'' t1 = Inr t2
        \<and> stream_merge (old @ [t2]) = Inr merged
        \<and> stream_trim (t_now - window_seconds p) t_now merged = Inl e \<longrightarrow>
          on_data E now t_now tr p
            = (Some e, store_buffer (trace_key tr) merged (touch (station tr) now p)))
    \<and> (detrend E ''linear'' tr = Inr t1 \<and> detrend E ''demean'' t1 = Inr t2
        \<and> stream_merge (old @ [t2]) = Inr merged
        \<and> stream_trim (t_now - window_seconds p) t_now merged = Inr buf
        \<and> inventories p (station tr) = None \<longrightarrow>
          on_data E now t_now tr p
            = (Some (KeyError (station tr)), store_buffer (trace_key tr) buf (touch (station tr) now p)))
    \<and> (detrend E ''linear'' tr = Inr t1 \<and> detrend E ''demean'' t1 = Inr t2
        \<and> stream_merge (old @ [t2]) = Inr merged
        \<and> stream_trim (t_now - window_seconds p) t_now merged = Inr buf
        \<and> inventories p (station tr) = Some resp
        \<and> remove_response E resp
             (if shares_object old t2
              then trim_in_stream (t_now - window_seconds p) t_now merged t2 else t2) = Inl e \<longrightarrow>
          on_data E now t_now tr p
            = (Some e, store_buffer (trace_key tr) buf (touch (station tr) now p)))
    \<and> (detrend E ''linear'' tr = Inr t1 \<and> detrend E ''demean'' t1 = Inr t2
        \<and> stream_merge (old @ [t2]) = Inr merged
        \<and> stream_trim (t_now - window_seconds p) t_now merged = Inr buf
        \<and> inventories p (station tr) = Some resp
        \<and> remove_response E resp
             (if shares_object old t2
              then trim_in_stream (t_now - window_seconds p) t_now merged t2 else t2) = Inr t3
        \<and> trace_trim True (t_now - window_seconds p) t_now t3 = Inr t4
        \<and> slice (t_now - 10) t_now t4 = Inr recorte \<and> data recorte \<noteq> [] \<longrightarrow>
          on_data E now t_now tr p
            = (fst (update_values (station tr) t_now recorte (current_values p)),
               (store_buffer (trace_key tr)
                  (if shares_object old t2
                      \<and> data (trim_in_stream (t_now - window_seconds p) t_now merged t2) \<noteq> []
                   then [t4] else buf)
                  (touch (station tr) now p))
                \<lparr>current_values := snd (update_values (station tr) t_now recorte (current_values p))\<rparr>))"
proof -
  from sub have s: "streams p (trace_key tr) \<noteq> None" by simp
  note touched = on_data_touch[OF s, of E now t_now]
  note fails = on_data_detrend_fails[OF sub, where E = E and now = now and t_now = t_now]
  note merge_fails = on_data_merge_fails[OF sub, where E = E and now = now and t_now = t_now]
  note trim_fails = on_data_trim_fails[OF sub, where E = E and now = now and t_now = t_now]
  note no_inventory = on_data_no_inventory[OF sub, where E = E and now = now and t_now = t_now]
  note correction_fails = on_data_correction_fails[OF sub, where E = E and now = now and t_now = t_now]
  note all_stages = on_data_all_stages[OF sub, where E = E and now = now and t_now = t_now]
  show ?thesis
  proof (intro conjI impI; (elim conjE)?)
    show "last_data_times (snd (on_data E now t_now tr p)) (station tr) = Some (Some now)"
      by (rule touched)
    show "connection_status (snd (on_data E now t_now tr p)) (station tr) = Some True"
      by (rule touched)
  qed (blast intro: fails merge_fails trim_fails no_inventory correction_fails all_stages)+
qed

theorem ingestion_order_witness:
  "streams short_window_plotter (trace_key first_packet) = Some []
   \<and> stream_merge ([] @ [first_packet]) = Inr [first_packet]
   \<and> stream_trim (101 - 12) 101 [first_packet]
       = Inr [example_trace ''UX'' ''UIS09'' 1 89 [0, 0, 0, 0, 0, 0, 0, 0, 0, 3, -4, 1, 0]]
   \<and> inventories short_window_plotter ''UIS09'' = Some ()
   \<and> slice (101 - 10) 101 (example_trace ''UX'' ''UIS09'' 1 89 [0, 0, 0, 0, 0, 0, 0, 0, 0, 3, -4, 1, 0])
       = Inr (example_trace ''UX'' ''UIS09'' 1 91 [0, 0, 0, 0, 0, 0, 0, 3, -4, 1, 0])
   \<and> on_data example_env 100 101 first_packet short_window_plotter
       = (None,
          (store_buffer ''UX.UIS09.00.EHZ''
             [example_trace ''UX'' ''UIS09'' 1 89 [0, 0, 0, 0, 0, 0, 0, 0, 0, 3, -4, 1, 0]]
             (touch ''UIS09'' 100 short_window_plotter))
           \<lparr>current_values := snd (update_values ''UIS09'' 101
               (example_trace ''UX'' ''UIS09'' 1 91 [0, 0, 0, 0, 0, 0, 0, 3, -4, 1, 0]) Map.empty)\<rparr>)"
proof -
  have st: "station first_packet = ''UIS09''" and key: "trace_key first_packet = ''UX.UIS09.00.EHZ''"
    by (simp_all add: first_packet_def example_trace_def trace_key_def stream_key_def)
  have w: "window_seconds short_window_plotter = 12" and cv: "current_values short_window_plotter = Map.empty"
    by (simp_all add: short_window_plotter_def plotter_init_def)
  have ne: "data (example_trace ''UX'' ''UIS09'' 1 91 [0, 0, 0, 0, 0, 0, 0, 3, -4, 1, 0]) \<noteq> []"
    by (simp add: example_trace_def)
  show ?thesis
    using ingestion_order[OF first_packet_subscribed, where E = example_env and now = 100 and t_now = 101
        and ?t1.0 = first_packet and ?t2.0 = first_packet and merged = "[first_packet]"
        and buf = "[example_trace ''UX'' ''UIS09'' 1 89 [0, 0, 0, 0, 0, 0, 0, 0, 0, 3, -4, 1, 0]]"
        and resp = "()"
        and ?t3.0 = "example_trace ''UX'' ''UIS09'' 1 89 [0, 0, 0, 0, 0, 0, 0, 0, 0, 3, -4, 1, 0]"
        and ?t4.0 = "example_trace ''UX'' ''UIS09'' 1 89 [0, 0, 0, 0, 0, 0, 0, 0, 0, 3, -4, 1, 0]"
        and recorte = "example_trace ''UX'' ''UIS09'' 1 91 [0, 0, 0, 0, 0, 0, 0, 3, -4, 1, 0]"]
      first_packet_subscribed first_packet_detrend first_packet_merge first_packet_shares
      first_packet_window first_packet_trim first_packet_inventory first_packet_trace_trim
      first_packet_slice first_packet_values st key w cv ne
    by (simp add: example_env_def)
qed

section \<open>The values computed from the 10-second slice\<close>

lemma first_packet_gradient:
  "gradient (delta_t (example_trace ''UX'' ''UIS09'' 1 91 [0, 0, 0, 0, 0, 0, 0, 3, -4, 1, 0]))
     (data (example_trace ''UX'' ''UIS09'' 1 91 [0, 0, 0, 0, 0, 0, 0, 3, -4, 1, 0]))
   = Inr [0, 0, 0, 0, 0, 0, 3 / 2, -2, -1, 2, -1]"
  by code_simp

lemma first_packet_cumtrapz:
  "cumtrapz (delta_t (example_trace ''UX'' ''UIS09'' 1 91 [0, 0, 0, 0, 0, 0, 0, 3, -4, 1, 0]))
     (data (example_trace ''UX'' ''UIS09'' 1 91 [0, 0, 0, 0, 0, 0, 0, 3, -4, 1, 0]))
   = [0, 0, 0, 0, 0, 0, 0, 3 / 2, 1, - (1 / 2), 0]"
  by code_simp

lemma first_packet_peaks:
  "Max (abs ` set (data (example_trace ''UX'' ''UIS09'' 1 91 [0, 0, 0, 0, 0, 0, 0, 3, -4, 1, 0]))) = 4"
  "Max (abs ` set [0, 0, 0, 0, 0, 0, 0, 3 / 2, 1, - (1 / 2), (0::real)]) = 3 / 2"
  "Max (abs ` set [0, 0, 0, 0, 0, 0, 3 / 2, -2, -1, 2, (-1::real)]) = 2"
  by (simp_all add: example_trace_def)

text \<open>
  Claim C7 says that the acceleration peak is the largest first difference of the velocity.
  \<open>on_data\<close> calls \<open>Trace.differentiate()\<close> with its default method, \<open>numpy.gradient\<close>,
  which takes central differences inside the trace and one-sided differences at its two
  ends. For the first packet 3, -4, 1 of station UIS09 with a 12-second window and an
  identity response the 10-second slice is 0, 0, 0, 0, 0, 0, 0, 3, -4, 1, 0: the stored
  acceleration is 2000000, the largest central difference, where the largest first
  difference is 7.
\<close>

theorem acceleration_first_difference_counterexample:
  "snapshot_of (snd (on_data example_env 100 101 first_packet short_window_plotter))
       (''UX'', ''UIS09'', ''00'', ''EHZ'')
     = \<lparr>vel = 4000000, desp = 1500000, acel = 2000000, last_update = Some 101\<rparr>
   \<and> slice (101 - 10) 101 (example_trace ''UX'' ''UIS09'' 1 89 [0, 0, 0, 0, 0, 0, 0, 0, 0, 3, -4, 1, 0])
     = Inr (example_trace ''UX'' ''UIS09'' 1 91 [0, 0, 0, 0, 0, 0, 0, 3, -4, 1, 0])
   \<and> first_difference 1 [0, 0, 0, 0, 0, 0, 0, 3, -4, 1, 0] = [0, 0, 0, 0, 0, 0, 3, -7, 5, -1]
   \<and> abs_max (first_difference 1 [0, 0, 0, 0, 0, 0, 0, 3, -4, 1, 0]) = Inr 7
   \<and> gradient 1 [0, 0, 0, 0, 0, 0, 0, 3, -4, 1, 0] = Inr [0, 0, 0, 0, 0, 0, 3 / 2, -2, -1, 2, -1]
   \<and> abs_max [0, 0, 0, 0, 0, 0, 3 / 2, -2, -1, 2, -1] = Inr 2"
proof -
  have "snapshot_of (snd (on_data example_env 100 101 first_packet short_window_plotter))
       (''UX'', ''UIS09'', ''00'', ''EHZ'')
     = \<lparr>vel = 4000000, desp = 1500000, acel = 2000000, last_update = Some 101\<rparr>"
    by code_simp
  moreover have "first_difference 1 [0, 0, 0, 0, 0, 0, 0, 3, -4, 1, 0] = [0, 0, 0, 0, 0, 0, 3, -7, 5, -1]"
    by code_simp
  moreover have "abs_max (first_difference 1 [0, 0, 0, 0, 0, 0, 0, 3, -4, 1, 0]) = Inr 7"
    by code_simp
  moreover have "gradient 1 [0, 0, 0, 0, 0, 0, 0, 3, -4, 1, 0] = Inr [0, 0, 0, 0, 0, 0, 3 / 2, -2, -1, 2, -1]"
    by code_simp
  moreover have "abs_max [0, 0, 0, 0, 0, 0, 3 / 2, -2, -1, 2, -1] = Inr 2"
    by code_simp
  ultimately show ?thesis using first_packet_slice by simp
qed

text \<open>
  Claim C7, amended. Whenever the 10-second slice of the response-corrected trace holds at
  least two samples (at a positive sampling rate), \<open>update_values\<close> replaces the
  station's values as a whole: the velocity is the largest absolute sample of the slice,
  the displacement the largest absolute value of its cumulative trapezoidal integral
  (starting at 0), the acceleration the largest absolute value of its \<open>numpy.gradient\<close>,
  which is the central difference inside the slice and the one-sided difference at its
  two ends, each times 1000000, and \<open>last_update\<close> is the packet's time. When every
  earlier step of \<open>on_data\<close> passes, these are the values \<open>on_data\<close> stores for the
  station.
\<close>

theorem metric_values_from_slice:
  assumes "2 \<le> npts recorte" and "0 < sampling_rate recorte"
  shows "\<exists>g. gradient (delta_t recorte) (data recorte) = Inr g
      \<and> update_values sta t_now recorte cv =
          (None, cv(sta \<mapsto>
             \<lparr>vel = Max (abs ` set (data recorte)) * 1000000,
              desp = Max (abs ` set (cumtrapz (delta_t recorte) (data recorte))) * 1000000,
              acel = Max (abs ` set g) * 1000000,
              last_update = Some t_now\<rparr>))
      \<and> length (cumtrapz (delta_t recorte) (data recorte)) = npts recorte
      \<and> (\<forall>i. i < npts recorte \<longrightarrow>
            cumtrapz (delta_t recorte) (data recorte) ! i
              = (\<Sum>j<i. delta_t recorte * (data recorte ! j + data recorte ! Suc j) / 2))
      \<and> length g = npts recorte
      \<and> g ! 0 = (data recorte ! 1 - data recorte ! 0) / delta_t recorte
      \<and> g ! (npts recorte - 1)
          = (data recorte ! (npts recorte - 1) - data recorte ! (npts recorte - 2)) / delta_t recorte
      \<and> (\<forall>i. 0 < i \<and> i < npts recorte - 1 \<longrightarrow>
            g ! i = (data recorte ! (i + 1) - data recorte ! (i - 1)) / (2 * delta_t recorte))
      \<and> (streams p (trace_key tr) = Some old
          \<and> detrend E ''linear'' tr = Inr t1 \<and> detrend E ''demean'' t1 = Inr t2
          \<and> stream_merge (old @ [t2]) = Inr merged
          \<and> stream_trim (t_now - window_seconds p) t_now merged = Inr buf
          \<and> inventories p (station tr) = Some resp
          \<and> remove_response E resp
               (if shares_object old t2
                then trim_in_stream (t_now - window_seconds p) t_now merged t2 else t2) = Inr t3
          \<and> trace_trim True (t_now - window_seconds p) t_now t3 = Inr t4
          \<and> slice (t_now - 10) t_now t4 = Inr recorte \<longrightarrow>
            fst (on_data E now t_now tr p) = None
            \<and> current_values (snd (on_data E now t_now tr p))
                = snd (update_values (station tr) t_now recorte (current_values p)))"
proof -
  from assms(1) have len: "2 \<le> length (data recorte)" by (simp add: npts_def)
  then have ne: "data recorte \<noteq> []" by auto
  from gradient_Inr[OF len, of "delta_t recorte"] obtain g where
    g: "gradient (delta_t recorte) (data recorte) = Inr g" and lg: "length g = length (data recorte)"
    and g0: "g ! 0 = (data recorte ! 1 - data recorte ! 0) / delta_t recorte"
    and gl: "g ! (length (data recorte) - 1)
          = (data recorte ! (length (data recorte) - 1) - data recorte ! (length (data recorte) - 2)) / delta_t recorte"
    and gi: "\<forall>i. 0 < i \<and> i < length (data recorte) - 1 \<longrightarrow>
            g ! i = (data recorte ! (i + 1) - data recorte ! (i - 1)) / (2 * delta_t recorte)"
    by blast
  from lg ne have gne: "g \<noteq> []" by auto
  note uv = update_values_eq[OF g ne gne]
  have od: "fst (on_data E now t_now tr p) = None
            \<and> current_values (snd (on_data E now t_now tr p))
                = snd (update_values (station tr) t_now recorte (current_values p))"
    if "streams p (trace_key tr) = Some old"
      and "detrend E ''linear'' tr = Inr t1" and "detrend E ''demean'' t1 = Inr t2"
      and "stream_merge (old @ [t2]) = Inr merged"
      and "stream_trim (t_now - window_seconds p) t_now merged = Inr buf"
      and "inventories p (station tr) = Some resp"
      and "remove_response E resp
               (if shares_object old t2
                then trim_in_stream (t_now - window_seconds p) t_now merged t2 else t2) = Inr t3"
      and "trace_trim True (t_now - window_seconds p) t_now t3 = Inr t4"
      and "slice (t_now - 10) t_now t4 = Inr recorte"
    using on_data_all_stages[OF that ne, of now] uv[of "station tr" t_now "current_values p"]
    by (simp add: store_buffer_def)
  show ?thesis
    apply (rule exI[of _ g])
    using g uv lg g0 gl gi od
    by (simp add: npts_def length_cumtrapz nth_cumtrapz)
qed

theorem metric_values_from_slice_witness:
  "0 < sampling_rate (example_trace ''UX'' ''UIS09'' 1 91 [0, 0, 0, 0, 0, 0, 0, 3, -4, 1, 0])
   \<and> 2 \<le> npts (example_trace ''UX'' ''UIS09'' 1 91 [0, 0, 0, 0, 0, 0, 0, 3, -4, 1, 0])
   \<and> update_values ''UIS09'' 101
        (example_trace ''UX'' ''UIS09'' 1 91 [0, 0, 0, 0, 0, 0, 0, 3, -4, 1, 0]) Map.empty
      = (None, [''UIS09'' \<mapsto>
           \<lparr>vel = 4000000, desp = 1500000, acel = 2000000, last_update = Some 101\<rparr>])"
proof -
  let ?r = "example_trace ''UX'' ''UIS09'' 1 91 [0, 0, 0, 0, 0, 0, 0, 3, -4, 1, 0]"
  have n: "2 \<le> npts ?r" by (simp add: npts_def example_trace_def)
  have sr: "0 < sampling_rate ?r" by (simp add: example_trace_def)
  from metric_values_from_slice[OF n sr, where sta = "''UIS09''" and t_now = 101 and cv = Map.empty
      and p = short_window_plotter and E = example_env and tr = first_packet and old = "[]"
      and ?t1.0 = first_packet and ?t2.0 = first_packet and merged = "[]" and buf = "[]"
      and resp = "()" and ?t3.0 = first_packet and ?t4.0 = first_packet and now = 100]
  obtain g where g: "gradient (delta_t ?r) (data ?r) = Inr g"
    and uv: "update_values ''UIS09'' 101 ?r Map.empty =
          (None, [''UIS09'' \<mapsto>
             \<lparr>vel = Max (abs ` set (data ?r)) * 1000000,
              desp = Max (abs ` set (cumtrapz (delta_t ?r) (data ?r))) * 1000000,
              acel = Max (abs ` set g) * 1000000,
              last_update = Some 101\<rparr>])"
    by (elim exE conjE) (rule that, assumption+)
  from g have g': "g = [0, 0, 0, 0, 0, 0, 3 / 2, -2, -1, 2, -1]"
    unfolding first_packet_gradient by (simp only: sum.inject)
  have "update_values ''UIS09'' 101 ?r Map.empty
      = (None, [''UIS09'' \<mapsto>
           \<lparr>vel = 4000000, desp = 1500000, acel = 2000000, last_update = Some 101\<rparr>])"
    unfolding uv g' first_packet_cumtrapz first_packet_peaks by simp
  with n sr show ?thesis by simp
qed

end
